theory Spec2Isabelle
  imports Main "HOL-Library.Multiset" "HOL-Library.Word"
begin

section \<open>The k-way merger of src/lua/merger.c\<close>

text \<open>
  The development embeds the C functions of \<^verbatim>\<open>src/lua/merger.c\<close>:
  \<^verbatim>\<open>source_less\<close>, \<^verbatim>\<open>source_fetch\<close>, \<^verbatim>\<open>free_sources\<close>,
  \<^verbatim>\<open>lbox_merger_start\<close>, \<^verbatim>\<open>lbox_merger_next\<close> and \<^verbatim>\<open>lbox_merger_new\<close>.

  Modelling decisions, valid for the whole file:
  \<^item> A \<^verbatim>\<open>struct tuple *\<close> is a value of an arbitrary type \<open>'t\<close>; \<^verbatim>\<open>NULL\<close> is \<open>None\<close>.
  \<^item> The memory outside the merger is an explicit store: every \<^verbatim>\<open>struct ibuf\<close> and every Lua
    function object lives at an address (a natural number), so that two entries of a source
    table may denote the same object.
  \<^item> The used region \<^verbatim>\<open>[rpos, wpos)\<close> of a buffer is the list of MsgPack heads it encodes;
    advancing \<^verbatim>\<open>rpos\<close> drops heads from the front.
  \<^item> A Lua error (\<^verbatim>\<open>luaL_error\<close>, an error raised by a callable) is a value of type \<open>error\<close>,
    returned together with the state the C code leaves behind.
  \<^item> \<^verbatim>\<open>malloc\<close>, \<^verbatim>\<open>realloc\<close> and \<^verbatim>\<open>calloc\<close> are taken to succeed. Of the allocated memory
    the model tracks the block \<^verbatim>\<open>merger->sources\<close> points to: whether the pointer is
    \<^verbatim>\<open>NULL\<close>, points to a live block, or still points to a block that has been freed.
  \<^item> The Lua value stack and the registry are not modelled: a registry reference is
    identified with the function object it pins.
  \<^item> A C \<^verbatim>\<open>int\<close> is a 32-bit word, read as a signed number by \<open>sint\<close>; a product of two
    \<^verbatim>\<open>int\<close>s is the product of the words, which wraps around.
  \<^item> Functions of other compilation units (\<^verbatim>\<open>box_tuple_compare\<close>, \<^verbatim>\<open>box_tuple_new\<close>,
    \<^verbatim>\<open>field_type_by_name\<close>, \<^verbatim>\<open>key_def_new\<close>, \<^verbatim>\<open>box_tuple_format_new\<close>) are parameters.
\<close>

subsection \<open>Errors\<close>

datatype error =
    Invalid_merge_source      \<comment> \<open>\<^verbatim>\<open>luaL_error(L, "Invalid merge source")\<close>\<close>
  | Tuple_expected            \<comment> \<open>\<^verbatim>\<open>luaL_error(L, "source_fetch: tuple expected, got %s")\<close>\<close>
  | Producer_fault            \<comment> \<open>an error raised inside \<^verbatim>\<open>lua_call\<close>\<close>
  | Fieldno_nil               \<comment> \<open>\<^verbatim>\<open>luaL_error(L, "fieldno must not be nil")\<close>\<close>
  | Type_nil                  \<comment> \<open>\<^verbatim>\<open>luaL_error(L, "type must not be nil")\<close>\<close>
  | Unknown_field_type string \<comment> \<open>\<^verbatim>\<open>luaL_error(L, "Unknown field type: %s")\<close>\<close>
  | Cannot_create_key_def     \<comment> \<open>\<^verbatim>\<open>luaL_error(L, "Cannot create merger->key_def")\<close>\<close>
  | Cannot_create_format      \<comment> \<open>\<^verbatim>\<open>luaL_error(L, "Cannot create merger->format")\<close>\<close>
  | Undefined_behaviour       \<comment> \<open>a failed \<^verbatim>\<open>assert\<close>, a \<^verbatim>\<open>NULL\<close> dereference or a read or write
                                  outside an allocated or used region\<close>

text \<open>The error kinds of the specification, and the kind of each error the code raises.\<close>

datatype error_kind = OutOfMemory | InvalidKeyPart | InvalidSource | ProducerFault

fun kind_of :: "error \<Rightarrow> error_kind option" where
  "kind_of Invalid_merge_source = Some InvalidSource"
| "kind_of Tuple_expected = Some InvalidSource"
| "kind_of Producer_fault = Some ProducerFault"
| "kind_of Fieldno_nil = Some InvalidKeyPart"
| "kind_of Type_nil = Some InvalidKeyPart"
| "kind_of (Unknown_field_type n) = Some InvalidKeyPart"
| "kind_of Cannot_create_key_def = None"
| "kind_of Cannot_create_format = None"
| "kind_of Undefined_behaviour = None"

subsection \<open>MsgPack heads (msgpuck.h)\<close>

datatype mp_type =
  MP_NIL | MP_UINT | MP_INT | MP_STR | MP_BIN | MP_ARRAY | MP_MAP | MP_BOOL
  | MP_FLOAT | MP_DOUBLE | MP_EXT

text \<open>
  One head of a MsgPack stream: a scalar with its payload, or the header of an array or of
  a map with the declared number of elements or entries.
\<close>

datatype mp_token =
    Tok_nil
  | Tok_uint nat
  | Tok_int int
  | Tok_str string
  | Tok_bin string
  | Tok_array nat
  | Tok_map nat
  | Tok_bool bool
  | Tok_float
  | Tok_double
  | Tok_ext

fun mp_typeof :: "mp_token \<Rightarrow> mp_type" where
  "mp_typeof Tok_nil = MP_NIL"
| "mp_typeof (Tok_uint n) = MP_UINT"
| "mp_typeof (Tok_int i) = MP_INT"
| "mp_typeof (Tok_str s) = MP_STR"
| "mp_typeof (Tok_bin s) = MP_BIN"
| "mp_typeof (Tok_array n) = MP_ARRAY"
| "mp_typeof (Tok_map n) = MP_MAP"
| "mp_typeof (Tok_bool b) = MP_BOOL"
| "mp_typeof Tok_float = MP_FLOAT"
| "mp_typeof Tok_double = MP_DOUBLE"
| "mp_typeof Tok_ext = MP_EXT"

text \<open>The number of values that follow a head and belong to it.\<close>

fun mp_children :: "mp_token \<Rightarrow> nat" where
  "mp_children (Tok_array n) = n"
| "mp_children (Tok_map n) = 2 * n"
| "mp_children t = 0"

text \<open>
  \<^verbatim>\<open>mp_next\<close> skips one complete value. \<open>mp_next_k k\<close> skips \<open>k\<close> values and returns the
  heads skipped and the heads left; \<open>None\<close> when the stream ends inside a value.
\<close>

fun mp_next_k :: "nat \<Rightarrow> mp_token list \<Rightarrow> (mp_token list \<times> mp_token list) option" where
  "mp_next_k 0 ts = Some ([], ts)"
| "mp_next_k (Suc k) [] = None"
| "mp_next_k (Suc k) (t # ts) =
     (case mp_next_k (k + mp_children t) ts of
        None \<Rightarrow> None
      | Some (skipped, rest) \<Rightarrow> Some (t # skipped, rest))"

definition mp_next :: "mp_token list \<Rightarrow> (mp_token list \<times> mp_token list) option" where
  "mp_next ts = mp_next_k 1 ts"

text \<open>
  Modelled from the spec: the constant \<^verbatim>\<open>IPROTO_DATA\<close> of box/iproto_constants.h, which is
  not among the sources; the specification gives \<open>DATA = 0x30\<close>.
\<close>

definition IPROTO_DATA :: nat where
  "IPROTO_DATA = 48"

subsection \<open>The merger's data\<close>

datatype source_type_t = SOURCE_TYPE_BUFFER | SOURCE_TYPE_FUNCTION

text \<open>
  \<^verbatim>\<open>struct source\<close>. The union \<^verbatim>\<open>input\<close> is one number: the address of the buffer for a
  buffer source, the registry reference (the function object) for a function source. The
  heap linkage \<^verbatim>\<open>hnode\<close> has no field here: the heap holds the index of the source in the
  merger's array.
\<close>

record 't source =
  source_type :: source_type_t
  input :: nat
  tuple :: "'t option"

text \<open>
  The state of the block a pointer was set to: the pointer is \<^verbatim>\<open>NULL\<close>, the block is
  allocated, or the block has been freed and the pointer still holds its address.
  \<^verbatim>\<open>free\<close> does nothing on \<^verbatim>\<open>NULL\<close>, releases a live block and leaves the pointer as it is;
  on a block that has been freed already it is a double free (\<open>None\<close>).
\<close>

datatype block = Block_null | Block_live | Block_freed

fun free_block :: "block \<Rightarrow> block option" where
  "free_block Block_null = Some Block_null"
| "free_block Block_live = Some Block_freed"
| "free_block Block_freed = None"

text \<open>
  \<^verbatim>\<open>struct merger\<close>. \<open>sources\<close> lists the entries of the C array that are in use and
  \<open>sources_block\<close> is the state of the block \<^verbatim>\<open>merger->sources\<close> points to;
  \<open>count\<close> and \<open>capacity\<close> are \<^verbatim>\<open>uint32_t\<close> in C and natural numbers here, with the
  wrap-around of \<^verbatim>\<open>capacity *= 2\<close> written out where it happens; \<open>order\<close> is an \<^verbatim>\<open>int\<close>.
\<close>

record ('t, 'kd, 'fmt) merger =
  heap :: "nat list"
  count :: nat
  capacity :: nat
  sources :: "'t source list"
  sources_block :: block
  key_def :: 'kd
  format :: 'fmt
  order :: "32 word"

text \<open>What one call of a Lua callable returns.\<close>

datatype 't call_result =
    Ret_nil             \<comment> \<open>nothing: end of stream\<close>
  | Ret_tuple 't        \<comment> \<open>a tuple handle\<close>
  | Ret_other           \<comment> \<open>a value that is neither nil nor a tuple\<close>
  | Ret_error           \<comment> \<open>the callable raises\<close>

text \<open>
  The memory shared with the caller: the unread region of every buffer, for every function
  object the results of its future calls in order (a function whose list is used up
  returns nil), and the tuple references the merger has taken with \<^verbatim>\<open>box_tuple_ref\<close> and
  not yet given up with \<^verbatim>\<open>box_tuple_unref\<close>.
\<close>

record 't world =
  ibufs :: "nat \<Rightarrow> mp_token list"
  callables :: "nat \<Rightarrow> 't call_result list"
  tuple_refs :: "'t multiset"

text \<open>
  The entries of the Lua table passed to \<^verbatim>\<open>start\<close>: nil, a function, a value for which
  \<^verbatim>\<open>lua_topointer\<close> yields the address of a \<^verbatim>\<open>struct ibuf\<close>, or a value for which it yields
  \<^verbatim>\<open>NULL\<close> (a number, a string, a boolean).
\<close>

datatype lua_value = Lua_nil | Lua_function nat | Lua_ibuf nat | Lua_other

fun lua_isnil :: "lua_value \<Rightarrow> bool" where
  "lua_isnil Lua_nil = True"
| "lua_isnil v = False"

fun lua_isfunction :: "lua_value \<Rightarrow> bool" where
  "lua_isfunction (Lua_function f) = True"
| "lua_isfunction v = False"

fun lua_topointer :: "lua_value \<Rightarrow> nat option" where
  "lua_topointer (Lua_ibuf a) = Some a"
| "lua_topointer (Lua_function f) = Some f"
| "lua_topointer v = None"

text \<open>\<^verbatim>\<open>lua_pushinteger(L, i); lua_gettable(L, 2)\<close>: the entry at the one-based key \<open>i\<close>.\<close>

definition lua_gettable :: "lua_value list \<Rightarrow> nat \<Rightarrow> lua_value" where
  "lua_gettable t i = (if 1 \<le> i \<and> i \<le> length t then t ! (i - 1) else Lua_nil)"

definition ibuf_used :: "mp_token list \<Rightarrow> nat" where
  "ibuf_used b = length b"

definition box_tuple_ref :: "'t \<Rightarrow> 't world \<Rightarrow> 't world" where
  "box_tuple_ref t w = w\<lparr>tuple_refs := add_mset t (tuple_refs w)\<rparr>"

definition box_tuple_unref :: "'t \<Rightarrow> 't world \<Rightarrow> 't world" where
  "box_tuple_unref t w = w\<lparr>tuple_refs := tuple_refs w - {#t#}\<rparr>"

subsection \<open>The comparator: \<^verbatim>\<open>source_less\<close>\<close>

text \<open>
  \<^verbatim>\<open>box_tuple_compare\<close> is a parameter and returns an \<^verbatim>\<open>int\<close>. The product
  \<^verbatim>\<open>merger->order * box_tuple_compare(...)\<close> is a product of two \<^verbatim>\<open>int\<close>s: it wraps around
  where the order is \<open>-1\<close> and the comparator returns \<^verbatim>\<open>INT_MIN\<close>.
\<close>

definition source_less ::
  "('t \<Rightarrow> 't \<Rightarrow> 'kd \<Rightarrow> 32 word) \<Rightarrow> ('t, 'kd, 'fmt) merger \<Rightarrow> 't source \<Rightarrow> 't source
     \<Rightarrow> bool" where
  "source_less box_tuple_compare merger left right =
     (if tuple left = None \<and> tuple right = None then False
      else if tuple left = None then False
      else if tuple right = None then True
      else sint (order merger *
                 box_tuple_compare (the (tuple left)) (the (tuple right)) (key_def merger)) < 0)"

subsection \<open>The heap (salad/heap.h)\<close>

text \<open>
  Modelled from the spec: salad/heap.h, the template that \<^verbatim>\<open>HEAP_NAME merger_heap\<close> and
  \<^verbatim>\<open>HEAP_LESS source_less\<close> instantiate, is not among the sources. The specification asks
  for a min-heap over the cursors with \<open>insert\<close>, \<open>delete\<close>, \<open>update\<close> (rebalance after the
  node's key changed in place) and \<open>top\<close> (inspect the minimum). The model keeps the member
  nodes in insertion order and lets \<open>top\<close> select a member that no member is less than, by
  the keys the nodes have at that moment; among several such members it selects the one
  inserted first. \<open>update\<close> therefore has nothing to rearrange.
\<close>

definition merger_heap_create :: "nat list" where
  "merger_heap_create = []"

definition merger_heap_insert :: "nat list \<Rightarrow> nat \<Rightarrow> nat list" where
  "merger_heap_insert h n = h @ [n]"

definition merger_heap_delete :: "nat list \<Rightarrow> nat \<Rightarrow> nat list" where
  "merger_heap_delete h n = removeAll n h"

definition merger_heap_update :: "nat list \<Rightarrow> nat \<Rightarrow> nat list" where
  "merger_heap_update h n = h"

fun heap_least :: "(nat \<Rightarrow> nat \<Rightarrow> bool) \<Rightarrow> nat \<Rightarrow> nat list \<Rightarrow> nat" where
  "heap_least lt m [] = m"
| "heap_least lt m (x # xs) = heap_least lt (if lt x m then x else m) xs"

definition merger_heap_top :: "(nat \<Rightarrow> nat \<Rightarrow> bool) \<Rightarrow> nat list \<Rightarrow> nat option" where
  "merger_heap_top lt h = (case h of [] \<Rightarrow> None | x # xs \<Rightarrow> Some (heap_least lt x xs))"

text \<open>\<^verbatim>\<open>HEAP_LESS\<close> on two nodes of the merger's heap.\<close>

definition node_less ::
  "('t \<Rightarrow> 't \<Rightarrow> 'kd \<Rightarrow> 32 word) \<Rightarrow> ('t, 'kd, 'fmt) merger \<Rightarrow> nat \<Rightarrow> nat \<Rightarrow> bool" where
  "node_less box_tuple_compare merger a b =
     source_less box_tuple_compare merger (sources merger ! a) (sources merger ! b)"

subsection \<open>\<^verbatim>\<open>source_fetch\<close>\<close>

text \<open>
  The result is the error raised, if any, the source and the world as the C code leaves
  them. \<^verbatim>\<open>box_tuple_new\<close> is a parameter; where it yields \<^verbatim>\<open>NULL\<close> the following
  \<^verbatim>\<open>box_tuple_ref\<close> dereferences it. Where \<^verbatim>\<open>mp_next\<close> runs past \<^verbatim>\<open>wpos\<close> the assertion fails.
\<close>

definition source_fetch ::
  "('fmt \<Rightarrow> mp_token list \<Rightarrow> 't option) \<Rightarrow> 'fmt \<Rightarrow> 't source \<Rightarrow> 't world
     \<Rightarrow> error option \<times> 't source \<times> 't world" where
  "source_fetch box_tuple_new fmt source0 w =
     (let source = source0\<lparr>tuple := None\<rparr> in
      if source_type source = SOURCE_TYPE_FUNCTION then
        (case callables w (input source) of
           [] \<Rightarrow> (None, source, w)
         | r # rs \<Rightarrow>
             (let w1 = w\<lparr>callables := (callables w)(input source := rs)\<rparr> in
              case r of
                Ret_error \<Rightarrow> (Some Producer_fault, source, w1)
              | Ret_nil \<Rightarrow> (None, source, w1)
              | Ret_other \<Rightarrow> (Some Tuple_expected, source, w1)
              | Ret_tuple t \<Rightarrow> (None, source\<lparr>tuple := Some t\<rparr>, box_tuple_ref t w1)))
      else if ibuf_used (ibufs w (input source)) = 0 then (None, source, w)
      else
        (case mp_next (ibufs w (input source)) of
           None \<Rightarrow> (Some Undefined_behaviour, source, w)
         | Some (tuple_bytes, rest) \<Rightarrow>
             (let w1 = w\<lparr>ibufs := (ibufs w)(input source := rest)\<rparr> in
              case box_tuple_new fmt tuple_bytes of
                None \<Rightarrow> (Some Undefined_behaviour, source, w1)
              | Some t \<Rightarrow> (None, source\<lparr>tuple := Some t\<rparr>, box_tuple_ref t w1))))"

subsection \<open>\<^verbatim>\<open>free_sources\<close>\<close>

text \<open>The loop body's effect on the world: the head of each source in use is released.\<close>

fun unref_sources :: "'t source list \<Rightarrow> 't world \<Rightarrow> 't world" where
  "unref_sources [] w = w"
| "unref_sources (s # ss) w =
     unref_sources ss (case tuple s of None \<Rightarrow> w | Some t \<Rightarrow> box_tuple_unref t w)"

text \<open>
  \<^verbatim>\<open>free_sources\<close>: the loop releases the heads and frees the sources, then
  \<^verbatim>\<open>merger->count = 0\<close>, then \<^verbatim>\<open>free(merger->sources)\<close>, which leaves the pointer as it is,
  then the capacity and the heap are reset. The result is the error, if any, with the
  merger and the world at that point: where \<^verbatim>\<open>merger->sources\<close> has been freed before, the
  call of \<^verbatim>\<open>free\<close> is a double free and nothing after it is modelled.
\<close>

definition free_sources ::
  "('t, 'kd, 'fmt) merger \<Rightarrow> 't world \<Rightarrow> error option \<times> ('t, 'kd, 'fmt) merger \<times> 't world" where
  "free_sources merger0 w =
     (let w' = unref_sources (take (count merger0) (sources merger0)) w;
          merger = merger0\<lparr>count := 0, sources := []\<rparr>
      in case free_block (sources_block merger) of
           None \<Rightarrow> (Some Undefined_behaviour, merger, w')
         | Some b \<Rightarrow>
             (None,
              merger\<lparr>sources_block := b, capacity := 0, heap := merger_heap_create\<rparr>,
              w'))"

subsection \<open>\<^verbatim>\<open>lbox_merger_start\<close>\<close>

fun mp_decode_map :: "mp_token \<Rightarrow> nat" where
  "mp_decode_map (Tok_map n) = n"
| "mp_decode_map t = 0"

fun mp_decode_uint :: "mp_token \<Rightarrow> nat" where
  "mp_decode_uint (Tok_uint n) = n"
| "mp_decode_uint t = 0"

text \<open>
  The test of the \<^verbatim>\<open>{[IPROTO_DATA] = {...}}\<close> wrapper, with the read position each
  disjunct of the C condition leaves behind: \<^verbatim>\<open>mp_decode_map\<close> and \<^verbatim>\<open>mp_decode_uint\<close> have
  advanced \<^verbatim>\<open>rpos\<close> when a later disjunct decides. A disjunct that reads \<^verbatim>\<open>*buf->rpos\<close> at
  \<^verbatim>\<open>wpos\<close> reads outside the used region.
\<close>

datatype wrapper = Wrapper_ok | Wrapper_invalid | Wrapper_overread

definition decode_wrapper :: "mp_token list \<Rightarrow> wrapper \<times> mp_token list" where
  "decode_wrapper b =
     (case b of
        [] \<Rightarrow> (Wrapper_overread, b)
      | t1 # b1 \<Rightarrow>
          if mp_typeof t1 \<noteq> MP_MAP then (Wrapper_invalid, b)
          else if mp_decode_map t1 \<noteq> 1 then (Wrapper_invalid, b1)
          else
            (case b1 of
               [] \<Rightarrow> (Wrapper_overread, b1)
             | t2 # b2 \<Rightarrow>
                 if mp_typeof t2 \<noteq> MP_UINT then (Wrapper_invalid, b1)
                 else if mp_decode_uint t2 \<noteq> IPROTO_DATA then (Wrapper_invalid, b2)
                 else
                   (case b2 of
                      [] \<Rightarrow> (Wrapper_overread, b2)
                    | t3 # b3 \<Rightarrow>
                        if mp_typeof t3 \<noteq> MP_ARRAY then (Wrapper_invalid, b2)
                        else (Wrapper_ok, b3))))"

text \<open>
  \<^verbatim>\<open>luaL_ref\<close> on a function: the reference stands for the function object.
\<close>

fun luaL_ref :: "lua_value \<Rightarrow> nat" where
  "luaL_ref (Lua_function f) = f"
| "luaL_ref v = 0"

text \<open>How one pass through the body of \<^verbatim>\<open>while (true)\<close> ends.\<close>

datatype ('t, 'kd, 'fmt) iteration =
    Break
  | Continue
  | Advance "('t, 'kd, 'fmt) merger" "'t world"
  | Raise error "('t, 'kd, 'fmt) merger" "'t world"

text \<open>
  The part of the loop body after the source type is known: growing the array, allocating
  the source, decoding the wrapper of a buffer, the initial fetch and the insertion into
  the heap. Doubling a capacity of \<open>2^31\<close> wraps to 0 and \<^verbatim>\<open>realloc\<close> is called with size 0.
\<close>

definition start_source ::
  "('fmt \<Rightarrow> mp_token list \<Rightarrow> 't option) \<Rightarrow> source_type_t \<Rightarrow> nat \<Rightarrow> ('t, 'kd, 'fmt) merger
     \<Rightarrow> 't world \<Rightarrow> ('t, 'kd, 'fmt) iteration" where
  "start_source box_tuple_new stype inp merger0 w =
     (let merger =
            (if count merger0 = capacity merger0
             then merger0\<lparr>capacity := (capacity merger0 * 2) mod 2 ^ 32\<rparr> else merger0)
      in
      if count merger0 = capacity merger0 \<and> capacity merger = 0
      then Raise Undefined_behaviour merger w
      else
        (case (if stype = SOURCE_TYPE_FUNCTION then (Wrapper_ok, ibufs w inp)
               else decode_wrapper (ibufs w inp)) of
           (Wrapper_invalid, rest) \<Rightarrow>
             (case free_sources merger (w\<lparr>ibufs := (ibufs w)(inp := rest)\<rparr>) of
                (Some e, merger', w') \<Rightarrow> Raise e merger' w'
              | (None, merger', w') \<Rightarrow> Raise Invalid_merge_source merger' w')
         | (Wrapper_overread, rest) \<Rightarrow>
             Raise Undefined_behaviour merger (w\<lparr>ibufs := (ibufs w)(inp := rest)\<rparr>)
         | (Wrapper_ok, rest) \<Rightarrow>
             (case source_fetch box_tuple_new (format merger)
                     \<lparr>source_type = stype, input = inp, tuple = None\<rparr>
                     (if stype = SOURCE_TYPE_FUNCTION then w
                      else w\<lparr>ibufs := (ibufs w)(inp := rest)\<rparr>) of
                (Some e, source, w') \<Rightarrow> Raise e merger w'
              | (None, source, w') \<Rightarrow>
                  Advance
                    (merger\<lparr>heap :=
                              (if tuple source \<noteq> None
                               then merger_heap_insert (heap merger) (count merger)
                               else heap merger),
                            sources := take (count merger) (sources merger) @ [source],
                            count := count merger + 1\<rparr>)
                    w')))"

text \<open>One pass through the loop body, for the table entry \<open>v\<close> read at key \<open>count + 1\<close>.\<close>

definition start_iteration ::
  "('fmt \<Rightarrow> mp_token list \<Rightarrow> 't option) \<Rightarrow> lua_value \<Rightarrow> ('t, 'kd, 'fmt) merger
     \<Rightarrow> 't world \<Rightarrow> ('t, 'kd, 'fmt) iteration" where
  "start_iteration box_tuple_new v merger w =
     (if lua_isnil v then Break
      else if lua_isfunction v
      then start_source box_tuple_new SOURCE_TYPE_FUNCTION (luaL_ref v) merger w
      else
        (case lua_topointer v of
           None \<Rightarrow> Break
         | Some buf \<Rightarrow>
             if ibuf_used (ibufs w buf) = 0 then Continue
             else start_source box_tuple_new SOURCE_TYPE_BUFFER buf merger w))"

text \<open>
  The loop \<^verbatim>\<open>while (true)\<close> of \<^verbatim>\<open>lbox_merger_start\<close>. \<open>None\<close> is the loop that never ends.
  \<^verbatim>\<open>continue\<close> re-enters the loop with the merger unchanged, and so with the same key.
\<close>

partial_function (option) start_loop ::
  "('fmt \<Rightarrow> mp_token list \<Rightarrow> 't option) \<Rightarrow> lua_value list \<Rightarrow> ('t, 'kd, 'fmt) merger
     \<Rightarrow> 't world \<Rightarrow> (error option \<times> ('t, 'kd, 'fmt) merger \<times> 't world) option" where
  "start_loop box_tuple_new tbl merger w =
     (case start_iteration box_tuple_new (lua_gettable tbl (count merger + 1)) merger w of
        Break \<Rightarrow> Some (None, merger, w)
      | Continue \<Rightarrow> start_loop box_tuple_new tbl merger w
      | Advance merger' w' \<Rightarrow> start_loop box_tuple_new tbl merger' w'
      | Raise e merger' w' \<Rightarrow> Some (Some e, merger', w'))"

text \<open>
  \<^verbatim>\<open>lbox_merger_start\<close>, called with a merger, a table and a number whose
  \<^verbatim>\<open>lua_tointeger\<close> is \<open>ord\<close> (calls of another shape raise "Bad params" and do not touch
  the merger). The result \<open>(None, _, _)\<close> is the return of \<^verbatim>\<open>true\<close>. After \<^verbatim>\<open>free_sources\<close>
  the capacity is 8 and \<^verbatim>\<open>merger->sources\<close> points to the block \<^verbatim>\<open>malloc\<close> returned.
\<close>

definition lbox_merger_start ::
  "('fmt \<Rightarrow> mp_token list \<Rightarrow> 't option) \<Rightarrow> ('t, 'kd, 'fmt) merger \<Rightarrow> 't world
     \<Rightarrow> lua_value list \<Rightarrow> int
     \<Rightarrow> (error option \<times> ('t, 'kd, 'fmt) merger \<times> 't world) option" where
  "lbox_merger_start box_tuple_new merger0 w0 tbl ord =
     (case free_sources (merger0\<lparr>order := (if ord \<ge> 0 then 1 else - 1)\<rparr>) w0 of
        (Some e, merger, w) \<Rightarrow> Some (Some e, merger, w)
      | (None, merger, w) \<Rightarrow>
          start_loop box_tuple_new tbl (merger\<lparr>capacity := 8, sources_block := Block_live\<rparr>) w)"

subsection \<open>\<^verbatim>\<open>lbox_merger_next\<close>\<close>

text \<open>
  The result is the error raised or the value returned (\<open>None\<close> for nil, the end of the
  stream), with the merger and the world as the C code leaves them.
  \<^verbatim>\<open>luaT_pushtuple\<close> on \<^verbatim>\<open>NULL\<close> dereferences it.
\<close>

definition lbox_merger_next ::
  "('t \<Rightarrow> 't \<Rightarrow> 'kd \<Rightarrow> 32 word) \<Rightarrow> ('fmt \<Rightarrow> mp_token list \<Rightarrow> 't option)
     \<Rightarrow> ('t, 'kd, 'fmt) merger \<Rightarrow> 't world
     \<Rightarrow> (error + 't option) \<times> ('t, 'kd, 'fmt) merger \<times> 't world" where
  "lbox_merger_next box_tuple_compare box_tuple_new merger w =
     (case merger_heap_top (node_less box_tuple_compare merger) (heap merger) of
        None \<Rightarrow> (Inr None, merger, w)
      | Some hnode \<Rightarrow>
          (case tuple (sources merger ! hnode) of
             None \<Rightarrow> (Inl Undefined_behaviour, merger, w)
           | Some t \<Rightarrow>
               (case source_fetch box_tuple_new (format merger) (sources merger ! hnode)
                       (box_tuple_unref t w) of
                  (Some e, source, w') \<Rightarrow>
                    (Inl e, merger\<lparr>sources := (sources merger)[hnode := source]\<rparr>, w')
                | (None, source, w') \<Rightarrow>
                    (Inr (Some t),
                     merger\<lparr>sources := (sources merger)[hnode := source],
                            heap := (if tuple source = None
                                     then merger_heap_delete (heap merger) hnode
                                     else merger_heap_update (heap merger) hnode)\<rparr>,
                     w'))))"

subsection \<open>A merge run\<close>

text \<open>
  The caller's loop: at most \<open>n\<close> calls of \<^verbatim>\<open>next\<close>, stopping at the first nil or error. The
  result is the list of tuples returned, how the run stands, and the final state.
\<close>

datatype run_end = End_of_stream | Failed error | Running

fun merge_run ::
  "('t \<Rightarrow> 't \<Rightarrow> 'kd \<Rightarrow> 32 word) \<Rightarrow> ('fmt \<Rightarrow> mp_token list \<Rightarrow> 't option) \<Rightarrow> nat
     \<Rightarrow> ('t, 'kd, 'fmt) merger \<Rightarrow> 't world
     \<Rightarrow> 't list \<times> run_end \<times> ('t, 'kd, 'fmt) merger \<times> 't world" where
  "merge_run cmp tnew 0 merger w = ([], Running, merger, w)"
| "merge_run cmp tnew (Suc n) merger w =
     (case lbox_merger_next cmp tnew merger w of
        (Inl e, merger', w') \<Rightarrow> ([], Failed e, merger', w')
      | (Inr None, merger', w') \<Rightarrow> ([], End_of_stream, merger', w')
      | (Inr (Some t), merger', w') \<Rightarrow>
          (case merge_run cmp tnew n merger' w' of
             (ts, e, merger'', w'') \<Rightarrow> (t # ts, e, merger'', w'')))"

subsection \<open>\<^verbatim>\<open>lbox_merger_new\<close>\<close>

text \<open>
  One entry of the table passed to \<^verbatim>\<open>new\<close>, as the accessors of the C code see it: for each
  of the three fields \<open>None\<close> when \<^verbatim>\<open>lua_isnil\<close> holds, else what \<^verbatim>\<open>lua_tointeger\<close>,
  \<^verbatim>\<open>lua_tolstring\<close> and \<^verbatim>\<open>lua_toboolean\<close> yield.
\<close>

record part_descr =
  descr_fieldno :: "int option"
  descr_type :: "string option"
  descr_is_nullable :: "bool option"

text \<open>
  \<^verbatim>\<open>struct key_part_def\<close> (box/key_def.h): \<^verbatim>\<open>fieldno\<close> is a \<^verbatim>\<open>uint32_t\<close>. The field types are
  an arbitrary type \<open>'ft\<close>. Modelled from the spec: \<^verbatim>\<open>COLL_NONE\<close>, not among the sources; the
  specification calls it the collation none, here \<open>None\<close>.
\<close>

record 'ft key_part_def =
  fieldno :: "32 word"
  field_type :: 'ft
  coll_id :: "nat option"
  is_nullable :: bool

definition COLL_NONE :: "nat option" where
  "COLL_NONE = None"

text \<open>The body of the loop from \<^verbatim>\<open>Set parts[count].fieldno\<close> on.\<close>

definition parse_part ::
  "(string \<Rightarrow> 'ft) \<Rightarrow> 'ft \<Rightarrow> part_descr \<Rightarrow> error + 'ft key_part_def" where
  "parse_part field_type_by_name field_type_MAX d =
     (case descr_fieldno d of
        None \<Rightarrow> Inl Fieldno_nil
      | Some i \<Rightarrow>
          (case descr_type d of
             None \<Rightarrow> Inl Type_nil
           | Some type_name \<Rightarrow>
               if field_type_by_name type_name = field_type_MAX
               then Inl (Unknown_field_type type_name)
               else Inr \<lparr>fieldno = word_of_int (i - 1),
                         field_type = field_type_by_name type_name,
                         coll_id = COLL_NONE,
                         is_nullable =
                           (case descr_is_nullable d of None \<Rightarrow> False | Some b \<Rightarrow> b)\<rparr>))"

text \<open>
  The loop of \<^verbatim>\<open>lbox_merger_new\<close>; \<open>cnt\<close> and \<open>cap\<close> are the \<^verbatim>\<open>uint16_t\<close> variables
  \<^verbatim>\<open>count\<close> and \<^verbatim>\<open>capacity\<close>. Doubling a
  capacity of \<open>2^15\<close> wraps to 0 and \<^verbatim>\<open>realloc\<close> is called with size 0.
\<close>

fun parse_parts ::
  "(string \<Rightarrow> 'ft) \<Rightarrow> 'ft \<Rightarrow> part_descr list \<Rightarrow> nat \<Rightarrow> nat \<Rightarrow> 'ft key_part_def list
     \<Rightarrow> error + 'ft key_part_def list" where
  "parse_parts by_name mx [] cnt cap parts = Inr parts"
| "parse_parts by_name mx (d # ds) cnt cap parts =
     (if cnt = cap \<and> (cap * 2) mod 2 ^ 16 = 0 then Inl Undefined_behaviour
      else
        (case parse_part by_name mx d of
           Inl e \<Rightarrow> Inl e
         | Inr part \<Rightarrow>
             parse_parts by_name mx ds ((cnt + 1) mod 2 ^ 16)
               (if cnt = cap then (cap * 2) mod 2 ^ 16 else cap)
               (parts @ [part])))"

definition lbox_merger_new ::
  "(string \<Rightarrow> 'ft) \<Rightarrow> 'ft \<Rightarrow> ('ft key_part_def list \<Rightarrow> 'kd option) \<Rightarrow> ('kd \<Rightarrow> 'fmt option)
     \<Rightarrow> part_descr list \<Rightarrow> error + ('t, 'kd, 'fmt) merger" where
  "lbox_merger_new field_type_by_name field_type_MAX key_def_new box_tuple_format_new tbl =
     (case parse_parts field_type_by_name field_type_MAX tbl 0 8 [] of
        Inl e \<Rightarrow> Inl e
      | Inr parts \<Rightarrow>
          (case key_def_new parts of
             None \<Rightarrow> Inl Cannot_create_key_def
           | Some kd \<Rightarrow>
               (case box_tuple_format_new kd of
                  None \<Rightarrow> Inl Cannot_create_format
                | Some fmt \<Rightarrow>
                    Inr \<lparr>heap = [], count = 0, capacity = 0, sources = [],
                         sources_block = Block_null,
                         key_def = kd, format = fmt, order = 0\<rparr>)))"

subsection \<open>The construction constraints, stated on the descriptors\<close>

text \<open>
  A descriptor passes the checks of the loop of \<^verbatim>\<open>lbox_merger_new\<close>: its \<open>fieldno\<close> and its
  \<open>type\<close> are not nil and the type name is known.
\<close>

definition descr_accepted :: "(string \<Rightarrow> 'ft) \<Rightarrow> 'ft \<Rightarrow> part_descr \<Rightarrow> bool" where
  "descr_accepted by_name mx d =
     (descr_fieldno d \<noteq> None \<and>
      (case descr_type d of None \<Rightarrow> False | Some type_name \<Rightarrow> by_name type_name \<noteq> mx))"

text \<open>
  The key part a descriptor stands for: the field index is one less than \<open>fieldno\<close>, as an
  unsigned 32-bit number; nullability is false unless given; the collation is none.
\<close>

definition part_of_descr :: "(string \<Rightarrow> 'ft) \<Rightarrow> part_descr \<Rightarrow> 'ft key_part_def" where
  "part_of_descr by_name d =
     \<lparr>fieldno = word_of_int (the (descr_fieldno d) - 1),
      field_type = by_name (the (descr_type d)),
      coll_id = None,
      is_nullable = (descr_is_nullable d = Some True)\<rparr>"

text \<open>The values the variable \<^verbatim>\<open>capacity\<close> of \<^verbatim>\<open>lbox_merger_new\<close> takes before it wraps.\<close>

definition capacities :: "nat list" where
  "capacities = [8, 16, 32, 64, 128, 256, 512, 1024, 2048, 4096, 8192, 16384, 32768]"

text \<open>
  An instance of \<^verbatim>\<open>field_type_by_name\<close> for the examples: two known names, and 8 in the role
  of \<^verbatim>\<open>field_type_MAX\<close>.
\<close>

definition example_field_type_by_name :: "string \<Rightarrow> nat" where
  "example_field_type_by_name type_name =
     (if type_name = ''unsigned'' then 1 else if type_name = ''string'' then 2 else 8)"

definition example_descr :: "int \<Rightarrow> part_descr" where
  "example_descr i =
     \<lparr>descr_fieldno = Some i, descr_type = Some ''unsigned'', descr_is_nullable = None\<rparr>"

subsection \<open>Example inputs\<close>

text \<open>
  Tuples of one unsigned field, compared by that field; a tuple is the list of its MsgPack
  heads, and \<^verbatim>\<open>box_tuple_new\<close> accepts the records that are arrays.
\<close>

definition example_tuple :: "nat \<Rightarrow> mp_token list" where
  "example_tuple k = [Tok_array 1, Tok_uint k]"

definition example_box_tuple_new :: "'fmt \<Rightarrow> mp_token list \<Rightarrow> mp_token list option" where
  "example_box_tuple_new fmt bytes =
     (case bytes of Tok_array n # rest \<Rightarrow> Some bytes | _ \<Rightarrow> None)"

definition example_key :: "mp_token list \<Rightarrow> nat" where
  "example_key t = (case t of Tok_array n # Tok_uint k # rest \<Rightarrow> k | _ \<Rightarrow> 0)"

definition example_box_tuple_compare ::
  "mp_token list \<Rightarrow> mp_token list \<Rightarrow> 'kd \<Rightarrow> 32 word" where
  "example_box_tuple_compare a b kd =
     (if example_key a < example_key b then - 1
      else if example_key b < example_key a then 1 else 0)"

text \<open>A comparator that returns \<^verbatim>\<open>INT_MIN\<close>, whatever the tuples.\<close>

definition example_INT_MIN_compare :: "'t \<Rightarrow> 't \<Rightarrow> 'kd \<Rightarrow> 32 word" where
  "example_INT_MIN_compare a b kd = - 2147483648"

text \<open>A buffer as the wire format has it: the wrapper, then the tuples.\<close>

definition example_buffer :: "nat list \<Rightarrow> mp_token list" where
  "example_buffer ks =
     [Tok_map 1, Tok_uint 48, Tok_array (length ks)] @ concat (map example_tuple ks)"

text \<open>The merger that \<^verbatim>\<open>new\<close> returns for one key part on field 1 of type unsigned.\<close>

definition example_merger ::
  "(mp_token list, nat key_part_def list, nat key_part_def list) merger" where
  "example_merger =
     \<lparr>heap = [], count = 0, capacity = 0, sources = [], sources_block = Block_null,
      key_def = [\<lparr>fieldno = 0, field_type = 1, coll_id = None, is_nullable = False\<rparr>],
      format = [\<lparr>fieldno = 0, field_type = 1, coll_id = None, is_nullable = False\<rparr>],
      order = 0\<rparr>"

text \<open>
  A world with the buffers and the function of the scenarios of the specification: buffer 0
  is empty, buffer 1 holds \<open>[[1],[1],[2]]\<close>, buffer 2 holds \<open>[[1],[3],[5]]\<close>, buffer 3 holds
  \<open>[[2],[4],[6]]\<close>, buffer 4 starts with an array instead of the wrapper, buffer 5 holds
  \<open>[[5],[3],[1]]\<close>, buffer 6 holds \<open>[[6],[4],[2]]\<close>; function 0 yields \<open>[1]\<close> and then
  nothing, function 1 yields \<open>[1]\<close> and raises an error at its second call.
\<close>

definition example_world :: "mp_token list world" where
  "example_world =
     \<lparr>ibufs = (\<lambda>a. if a = 1 then example_buffer [1, 1, 2]
                   else if a = 2 then example_buffer [1, 3, 5]
                   else if a = 3 then example_buffer [2, 4, 6]
                   else if a = 4 then [Tok_array 1, Tok_array 1, Tok_uint 7]
                   else if a = 5 then example_buffer [5, 3, 1]
                   else if a = 6 then example_buffer [6, 4, 2]
                   else []),
      callables = (\<lambda>f. if f = 0 then [Ret_tuple (example_tuple 1)]
                       else if f = 1 then [Ret_tuple (example_tuple 1), Ret_error]
                       else []),
      tuple_refs = {#}\<rparr>"

subsection \<open>The less-predicate in the words of the specification\<close>

text \<open>
  The direction of a merge run, from the integer passed to \<open>start\<close>, and the predicate
  \<open>less(a, b)\<close> on the heads of two cursors (\<open>None\<close> is the head \<open>none\<close>):
  both none: not less; only \<open>a\<close> none: not less; only \<open>b\<close> none: less; otherwise
  \<open>direction * compare(a.head, b.head) < 0\<close>.
\<close>

definition direction_of :: "int \<Rightarrow> int" where
  "direction_of ord = (if ord \<ge> 0 then 1 else - 1)"

text \<open>The value of \<^verbatim>\<open>merger->order\<close> for that integer, and the comparator's result as a number.\<close>

definition order_of :: "int \<Rightarrow> 32 word" where
  "order_of ord = (if ord \<ge> 0 then 1 else - 1)"

definition compare_value :: "('t \<Rightarrow> 't \<Rightarrow> 'kd \<Rightarrow> 32 word) \<Rightarrow> 'kd \<Rightarrow> 't \<Rightarrow> 't \<Rightarrow> int" where
  "compare_value cmp kd x y = sint (cmp x y kd)"

fun spec_less :: "int \<Rightarrow> ('t \<Rightarrow> 't \<Rightarrow> int) \<Rightarrow> 't option \<Rightarrow> 't option \<Rightarrow> bool" where
  "spec_less direction compare None None = False"
| "spec_less direction compare None (Some y) = False"
| "spec_less direction compare (Some x) None = True"
| "spec_less direction compare (Some x) (Some y) = (direction * compare x y < 0)"

subsection \<open>Table entries and wrappers in the words of the specification\<close>

text \<open>
  An entry of the table at which the enumeration stops: nil, or a value that is neither a
  function nor convertible to a non-null buffer pointer.
\<close>

definition stops_enumeration :: "lua_value \<Rightarrow> bool" where
  "stops_enumeration v = (lua_isnil v \<or> (\<not> lua_isfunction v \<and> lua_topointer v = None))"

text \<open>
  The unread region of a buffer deviates from a one-entry map with key \<open>DATA\<close> and an array
  value: the outer value is not a map, or the map has not exactly one entry, or the key is
  not the unsigned integer \<open>DATA\<close>, or the value is not an array.
\<close>

fun wrapper_deviates :: "mp_token list \<Rightarrow> bool" where
  "wrapper_deviates [] = False"
| "wrapper_deviates (Tok_map n # rest) =
     (n \<noteq> 1 \<or>
      (case rest of
         [] \<Rightarrow> False
       | Tok_uint k # rest' \<Rightarrow>
           k \<noteq> IPROTO_DATA \<or> (case rest' of [] \<Rightarrow> False | v # rest'' \<Rightarrow> mp_typeof v \<noteq> MP_ARRAY)
       | key # rest' \<Rightarrow> True))"
| "wrapper_deviates (t # rest) = True"

text \<open>
  The merger as \<^verbatim>\<open>lbox_merger_new\<close> leaves it (\<^verbatim>\<open>calloc\<close>, then the key definition and the
  format).
\<close>

definition fresh_merger :: "'kd \<Rightarrow> 'fmt \<Rightarrow> ('t, 'kd, 'fmt) merger" where
  "fresh_merger kd fmt =
     \<lparr>heap = [], count = 0, capacity = 0, sources = [], sources_block = Block_null,
      key_def = kd, format = fmt, order = 0\<rparr>"


text \<open>The values the field \<^verbatim>\<open>capacity\<close> takes in \<^verbatim>\<open>lbox_merger_start\<close> before it wraps.\<close>

definition capacity_ok :: "nat \<Rightarrow> bool" where
  "capacity_ok c = (\<exists>k \<le> 28. c = 8 * 2 ^ k)"




text \<open>The parts of the outcome of a call that returned.\<close>

definition outcome_error :: "(error option \<times> 'm \<times> 'w) option \<Rightarrow> error option" where
  "outcome_error r = fst (the r)"

definition outcome_merger :: "(error option \<times> 'm \<times> 'w) option \<Rightarrow> 'm" where
  "outcome_merger r = fst (snd (the r))"

definition outcome_world :: "(error option \<times> 'm \<times> 'w) option \<Rightarrow> 'w" where
  "outcome_world r = snd (snd (the r))"

text \<open>
  \<open>start\<close> on the example merger in the example world, and \<open>next\<close> on the merger and in
  the world an outcome of \<open>start\<close> holds.
\<close>

definition example_start ::
  "lua_value list \<Rightarrow> int
     \<Rightarrow> (error option \<times> (mp_token list, nat key_part_def list, nat key_part_def list) merger
          \<times> mp_token list world) option" where
  "example_start tbl ord =
     lbox_merger_start example_box_tuple_new example_merger example_world tbl ord"

definition example_next ::
  "(error option \<times> (mp_token list, nat key_part_def list, nat key_part_def list) merger
      \<times> mp_token list world) option
     \<Rightarrow> (error + mp_token list option)
          \<times> (mp_token list, nat key_part_def list, nat key_part_def list) merger
          \<times> mp_token list world" where
  "example_next r =
     lbox_merger_next example_box_tuple_compare example_box_tuple_new
       (outcome_merger r) (outcome_world r)"

subsection \<open>What the sources supply\<close>

text \<open>
  The tuples a function returns before its first return that is not a tuple (nil ends the
  stream; any other value or an error ends the run).
\<close>

fun call_tuples :: "'t call_result list \<Rightarrow> 't list" where
  "call_tuples (Ret_tuple t # rs) = t # call_tuples rs"
| "call_tuples rs = []"

lemma mp_next_k_length:
  "mp_next_k k ts = Some (skipped, rest) \<Longrightarrow> length rest + k \<le> length ts"
proof (induction k ts arbitrary: skipped rest rule: mp_next_k.induct)
  case (1 ts)
  then show ?case by simp
next
  case (2 k)
  then show ?case by simp
next
  case (3 k t ts)
  from "3.prems" obtain skipped' where
    "mp_next_k (k + mp_children t) ts = Some (skipped', rest)"
    by (auto split: option.splits)
  from "3.IH" [OF this] show ?case by simp
qed

text \<open>
  The tuples \<^verbatim>\<open>source_fetch\<close> reads from a buffer, from a read position on: one record after
  the other, up to the write position (or up to a record that is cut short or that
  \<^verbatim>\<open>box_tuple_new\<close> refuses, where the run ends).
\<close>

function buf_tuples :: "('fmt \<Rightarrow> mp_token list \<Rightarrow> 't option) \<Rightarrow> 'fmt \<Rightarrow> mp_token list \<Rightarrow> 't list" where
  "buf_tuples tnew fmt [] = []"
| "buf_tuples tnew fmt (t # ts) =
     (case mp_next (t # ts) of
        None \<Rightarrow> []
      | Some (tuple_bytes, rest) \<Rightarrow>
          (case tnew fmt tuple_bytes of
             None \<Rightarrow> []
           | Some x \<Rightarrow> x # buf_tuples tnew fmt rest))"
  by pat_completeness auto
termination
proof (relation "measure (\<lambda>(tnew, fmt, b). length b)")
  show "wf (measure (\<lambda>(tnew, fmt, b). length b))"
    by simp
next
  fix tnew :: "'fmt \<Rightarrow> mp_token list \<Rightarrow> 't option" and fmt t ts x2 x y x2a
  assume "mp_next (t # ts) = Some x2" and "(x, y) = x2"
  then have "mp_next_k 1 (t # ts) = Some (x, y)"
    by (simp add: mp_next_def)
  from mp_next_k_length [OF this]
  show "((tnew, fmt, y), (tnew, fmt, t # ts)) \<in> measure (\<lambda>(tnew, fmt, b). length b)"
    by simp
qed

text \<open>The table entry a cursor was made for.\<close>

definition source_value :: "'t source \<Rightarrow> lua_value" where
  "source_value s =
     (if source_type s = SOURCE_TYPE_FUNCTION then Lua_function (input s) else Lua_ibuf (input s))"

text \<open>
  The part of the world a table entry denotes: the future results of a function, the
  unread region of a buffer.
\<close>

definition producer_state :: "'t world \<Rightarrow> lua_value \<Rightarrow> 't call_result list + mp_token list" where
  "producer_state w v =
     (case v of
        Lua_function f \<Rightarrow> Inl (callables w f)
      | Lua_ibuf a \<Rightarrow> Inr (ibufs w a)
      | _ \<Rightarrow> Inr [])"

text \<open>
  The tuples a cursor has still to fetch, and the stream of a cursor: its head, if any,
  followed by the tuples it has still to fetch (a cursor without head is drained and is
  not polled again).
\<close>

definition pending ::
  "('fmt \<Rightarrow> mp_token list \<Rightarrow> 't option) \<Rightarrow> 'fmt \<Rightarrow> 't world \<Rightarrow> 't source \<Rightarrow> 't list" where
  "pending tnew fmt w s =
     (case producer_state w (source_value s) of
        Inl rs \<Rightarrow> call_tuples rs
      | Inr b \<Rightarrow> buf_tuples tnew fmt b)"

definition stream ::
  "('fmt \<Rightarrow> mp_token list \<Rightarrow> 't option) \<Rightarrow> 'fmt \<Rightarrow> 't world \<Rightarrow> 't source \<Rightarrow> 't list" where
  "stream tnew fmt w s =
     (case tuple s of None \<Rightarrow> [] | Some t \<Rightarrow> t # pending tnew fmt w s)"

text \<open>
  The sequence of tuples a source passed to \<open>start\<close> supplies: for a function the tuples it
  returns, for a buffer the tuples that follow the wrapper.
\<close>

definition supplied ::
  "('fmt \<Rightarrow> mp_token list \<Rightarrow> 't option) \<Rightarrow> 'fmt \<Rightarrow> 't world \<Rightarrow> lua_value \<Rightarrow> 't list" where
  "supplied tnew fmt w v =
     (case producer_state w v of
        Inl rs \<Rightarrow> call_tuples rs
      | Inr b \<Rightarrow>
          (case decode_wrapper b of
             (Wrapper_ok, rest) \<Rightarrow> buf_tuples tnew fmt rest
           | _ \<Rightarrow> []))"

subsection \<open>Invariants of the merger\<close>

text \<open>The references the cursors hold: one for each head.\<close>

definition head_refs :: "'t source \<Rightarrow> 't multiset" where
  "head_refs s = (case tuple s of None \<Rightarrow> {#} | Some t \<Rightarrow> {#t#})"

definition heads :: "'t source list \<Rightarrow> 't multiset" where
  "heads ss = sum_list (map head_refs ss)"

text \<open>
  The references taken and not given up are those of the heads; the array holds \<open>count\<close>
  sources and the heap holds indices into it.
\<close>

definition refs_ok :: "('t, 'kd, 'fmt) merger \<Rightarrow> 't world \<Rightarrow> bool" where
  "refs_ok m w =
     (tuple_refs w = heads (sources m) \<and> length (sources m) = count m \<and>
      (\<forall>i \<in> set (heap m). i < count m))"

text \<open>
  Between the operations of a run: the heap holds exactly the cursors with a head, each
  once, and no two cursors read the same buffer or call the same function.
\<close>

definition merger_inv :: "('t, 'kd, 'fmt) merger \<Rightarrow> bool" where
  "merger_inv m =
     (length (sources m) = count m \<and> distinct (heap m) \<and>
      set (heap m) = {i. i < count m \<and> tuple (sources m ! i) \<noteq> None} \<and>
      distinct (map source_value (sources m)))"

text \<open>The streams of all cursors, in the order of the array.\<close>

definition streams ::
  "('fmt \<Rightarrow> mp_token list \<Rightarrow> 't option) \<Rightarrow> ('t, 'kd, 'fmt) merger \<Rightarrow> 't world \<Rightarrow> 't list list" where
  "streams tnew m w = map (stream tnew (format m) w) (sources m)"

subsection \<open>Order under a key definition and a direction\<close>

text \<open>
  \<open>a\<close> comes no later than \<open>b\<close> in the direction \<open>dir\<close>. The comparator is a parameter; the
  laws it is taken to obey are those of a comparison: it never returns \<^verbatim>\<open>INT_MIN\<close>, the
  sign flips when the arguments are swapped, and "not greater" is transitive.
\<close>

definition tuple_le ::
  "('t \<Rightarrow> 't \<Rightarrow> 'kd \<Rightarrow> 32 word) \<Rightarrow> 'kd \<Rightarrow> int \<Rightarrow> 't \<Rightarrow> 't \<Rightarrow> bool" where
  "tuple_le cmp kd dir a b = (dir * compare_value cmp kd a b \<le> 0)"

definition cmp_lawful :: "('t \<Rightarrow> 't \<Rightarrow> 'kd \<Rightarrow> 32 word) \<Rightarrow> 'kd \<Rightarrow> bool" where
  "cmp_lawful cmp kd =
     ((\<forall>a b. cmp a b kd \<noteq> - 2147483648) \<and>
      (\<forall>a b. (compare_value cmp kd a b < 0) = (0 < compare_value cmp kd b a)) \<and>
      (\<forall>a b c. compare_value cmp kd a b \<le> 0 \<longrightarrow> compare_value cmp kd b c \<le> 0 \<longrightarrow>
         compare_value cmp kd a c \<le> 0))"

text \<open>The entries that are sources: functions and buffers.\<close>

definition enumerated :: "lua_value list \<Rightarrow> lua_value list" where
  "enumerated tbl = takeWhile (\<lambda>v. \<not> stops_enumeration v) tbl"

section \<open>Properties\<close>

subsection \<open>\<^verbatim>\<open>lbox_merger_new\<close>: which tables it accepts\<close>

lemma parse_part_accepted:
  "descr_accepted by_name mx d \<Longrightarrow> parse_part by_name mx d = Inr (part_of_descr by_name d)"
  by (auto simp: descr_accepted_def parse_part_def part_of_descr_def COLL_NONE_def
      split: option.splits)

lemma parse_part_rejected:
  "\<not> descr_accepted by_name mx d \<Longrightarrow>
     \<exists>e. parse_part by_name mx d = Inl e \<and> kind_of e = Some InvalidKeyPart"
  by (auto simp: descr_accepted_def parse_part_def split: option.splits)

lemma capacities_double:
  "cap \<in> set capacities \<Longrightarrow> cap < 32768 \<Longrightarrow>
     (cap * 2) mod 2 ^ 16 = cap * 2 \<and> cap * 2 \<in> set capacities \<and> cap * 2 \<noteq> 0"
  by (auto simp: capacities_def)

lemma capacities_le: "cap \<in> set capacities \<Longrightarrow> cap \<le> 32768"
  by (auto simp: capacities_def)

lemma parse_parts_accepted:
  "cap \<in> set capacities \<Longrightarrow> cnt \<le> cap \<Longrightarrow> cnt + length ds \<le> 32768 \<Longrightarrow>
   list_all (descr_accepted by_name mx) ds \<Longrightarrow>
   parse_parts by_name mx ds cnt cap acc = Inr (acc @ map (part_of_descr by_name) ds)"
proof (induction ds arbitrary: cnt cap acc)
  case Nil
  then show ?case by simp
next
  case (Cons d ds)
  have ok: "parse_part by_name mx d = Inr (part_of_descr by_name d)"
    using Cons.prems(4) by (simp add: parse_part_accepted)
  have cnt: "cnt < 32768" "(cnt + 1) mod 2 ^ 16 = cnt + 1"
    using Cons.prems(3) by simp_all
  show ?case
  proof (cases "cnt = cap")
    case True
    then have d: "(cap * 2) mod 2 ^ 16 = cap * 2" "cap * 2 \<in> set capacities" "cap * 2 \<noteq> 0"
      using capacities_double [OF Cons.prems(1)] cnt(1) by simp_all
    have "parse_parts by_name mx ds (cnt + 1) (cap * 2) (acc @ [part_of_descr by_name d])
            = Inr ((acc @ [part_of_descr by_name d]) @ map (part_of_descr by_name) ds)"
      using Cons.prems True d by (intro Cons.IH) simp_all
    then show ?thesis using True d ok cnt by simp
  next
    case False
    have "parse_parts by_name mx ds (cnt + 1) cap (acc @ [part_of_descr by_name d])
            = Inr ((acc @ [part_of_descr by_name d]) @ map (part_of_descr by_name) ds)"
      using Cons.prems False by (intro Cons.IH) simp_all
    then show ?thesis using False ok cnt by simp
  qed
qed

lemma parse_parts_rejected:
  "cap \<in> set capacities \<Longrightarrow> cnt \<le> cap \<Longrightarrow> cnt + length ds \<le> 32768 \<Longrightarrow>
   \<not> list_all (descr_accepted by_name mx) ds \<Longrightarrow>
   \<exists>e. parse_parts by_name mx ds cnt cap acc = Inl e \<and> kind_of e = Some InvalidKeyPart"
proof (induction ds arbitrary: cnt cap acc)
  case Nil
  then show ?case by simp
next
  case (Cons d ds)
  have cnt: "cnt < 32768" "(cnt + 1) mod 2 ^ 16 = cnt + 1"
    using Cons.prems(3) by simp_all
  have nowrap: "\<not> (cnt = cap \<and> (cap * 2) mod 2 ^ 16 = 0)"
    using capacities_double [OF Cons.prems(1)] cnt(1) by auto
  show ?case
  proof (cases "descr_accepted by_name mx d")
    case False
    then show ?thesis using nowrap parse_part_rejected [OF False] by auto
  next
    case True
    then have ok: "parse_part by_name mx d = Inr (part_of_descr by_name d)"
      by (simp add: parse_part_accepted)
    have rest: "\<not> list_all (descr_accepted by_name mx) ds"
      using Cons.prems(4) True by simp
    show ?thesis
    proof (cases "cnt = cap")
      case c: True
      then have d: "(cap * 2) mod 2 ^ 16 = cap * 2" "cap * 2 \<in> set capacities" "cap * 2 \<noteq> 0"
        using capacities_double [OF Cons.prems(1)] cnt(1) by simp_all
      have "\<exists>e. parse_parts by_name mx ds (cnt + 1) (cap * 2) (acc @ [part_of_descr by_name d])
              = Inl e \<and> kind_of e = Some InvalidKeyPart"
        using Cons.prems c d rest by (intro Cons.IH) simp_all
      then show ?thesis using c d ok cnt by simp
    next
      case c: False
      have "\<exists>e. parse_parts by_name mx ds (cnt + 1) cap (acc @ [part_of_descr by_name d])
              = Inl e \<and> kind_of e = Some InvalidKeyPart"
        using Cons.prems c rest by (intro Cons.IH) simp_all
      then show ?thesis using c ok cnt by simp
    qed
  qed
qed

subsection \<open>\<^verbatim>\<open>lbox_merger_new\<close>: the field index\<close>

lemma parse_parts_Inr:
  "parse_parts by_name mx ds cnt cap acc = Inr parts \<Longrightarrow>
     \<exists>ps. parts = acc @ ps \<and> list_all2 (\<lambda>d p. parse_part by_name mx d = Inr p) ds ps"
proof (induction ds arbitrary: cnt cap acc)
  case Nil
  then show ?case by simp
next
  case (Cons d ds)
  from Cons.prems obtain p where p: "parse_part by_name mx d = Inr p"
    and rest: "parse_parts by_name mx ds ((cnt + 1) mod 2 ^ 16)
                 (if cnt = cap then (cap * 2) mod 2 ^ 16 else cap) (acc @ [p]) = Inr parts"
    by (auto split: if_splits sum.splits)
  from Cons.IH [OF rest] obtain ps where
    "parts = (acc @ [p]) @ ps" "list_all2 (\<lambda>d p. parse_part by_name mx d = Inr p) ds ps"
    by blast
  then have "parts = acc @ (p # ps) \<and> list_all2 (\<lambda>d p. parse_part by_name mx d = Inr p) (d # ds) (p # ps)"
    using p by simp
  then show ?case by blast
qed

lemma uint_word_of_int_32: "uint (word_of_int x :: 32 word) = x mod 2 ^ 32"
  unfolding uint_word_of_int by simp

lemma parse_part_Inr:
  assumes "parse_part by_name mx d = Inr p"
  shows "\<exists>i. descr_fieldno d = Some i \<and> uint (fieldno p) = (i - 1) mod 2 ^ 32"
proof -
  from assms obtain i where i: "descr_fieldno d = Some i" and p: "fieldno p = word_of_int (i - 1)"
    by (auto simp: parse_part_def split: option.splits if_splits)
  have "uint (fieldno p) = (i - 1) mod 2 ^ 32"
    unfolding p by (rule uint_word_of_int_32)
  with i show ?thesis by blast
qed

lemma parse_part_fieldno_0:
  assumes "descr_fieldno d = Some 0" and "descr_type d = Some type_name"
    and "by_name type_name \<noteq> mx"
  shows "\<exists>p. parse_part by_name mx d = Inr p \<and> uint (fieldno p) = 2 ^ 32 - 1"
proof -
  from assms obtain p where p: "parse_part by_name mx d = Inr p"
    by (simp add: parse_part_def)
  from parse_part_Inr [OF p] assms(1) have "uint (fieldno p) = (0 - 1) mod 2 ^ 32"
    by auto
  then have "uint (fieldno p) = 2 ^ 32 - 1"
    by simp
  with p show ?thesis by blast
qed

lemma lbox_merger_new_Inr:
  "lbox_merger_new by_name mx kdn fmtn tbl = Inr m \<Longrightarrow>
     \<exists>parts. parse_parts by_name mx tbl 0 8 [] = Inr parts \<and> kdn parts = Some (key_def m)"
  by (auto simp: lbox_merger_new_def split: sum.splits option.splits)

text \<open>
  Claim C10. For every key-part descriptor that \<open>new\<close> accepts, the field index handed to
  \<^verbatim>\<open>key_def_new\<close> is the descriptor's \<open>fieldno\<close> minus one, taken as a \<^verbatim>\<open>uint32_t\<close>; there is
  no lower bound: a descriptor with \<open>fieldno = 0\<close> and a known type passes the checks and its
  index is \<open>2^32 - 1\<close>.
\<close>

theorem new_stores_fieldno_minus_one:
  "(lbox_merger_new by_name mx kdn fmtn tbl = Inr m \<longrightarrow>
      (\<exists>parts. kdn parts = Some (key_def m) \<and> length parts = length tbl \<and>
         (\<forall>k < length tbl. \<exists>i. descr_fieldno (tbl ! k) = Some i \<and>
            uint (fieldno (parts ! k)) = (i - 1) mod 2 ^ 32))) \<and>
   (descr_fieldno d = Some 0 \<and> descr_type d = Some type_name \<and> by_name type_name \<noteq> mx \<longrightarrow>
      (\<exists>p. parse_part by_name mx d = Inr p \<and> uint (fieldno p) = 2 ^ 32 - 1))"
proof (intro conjI impI)
  assume new: "lbox_merger_new by_name mx kdn fmtn tbl = Inr m"
  from lbox_merger_new_Inr [OF new]
  obtain parts where pp: "parse_parts by_name mx tbl 0 8 [] = Inr parts"
    and kd: "kdn parts = Some (key_def m)"
    by blast
  from parse_parts_Inr [OF pp]
  have rel: "list_all2 (\<lambda>d p. parse_part by_name mx d = Inr p) tbl parts"
    by simp
  show "\<exists>parts. kdn parts = Some (key_def m) \<and> length parts = length tbl \<and>
         (\<forall>k < length tbl. \<exists>i. descr_fieldno (tbl ! k) = Some i \<and>
            uint (fieldno (parts ! k)) = (i - 1) mod 2 ^ 32)"
  proof (rule exI [of _ parts], intro conjI allI impI)
    show "kdn parts = Some (key_def m)"
      by (rule kd)
    show "length parts = length tbl"
      using rel by (simp add: list_all2_lengthD)
    fix k
    assume "k < length tbl"
    then have "parse_part by_name mx (tbl ! k) = Inr (parts ! k)"
      using rel by (simp add: list_all2_conv_all_nth)
    then show "\<exists>i. descr_fieldno (tbl ! k) = Some i \<and>
        uint (fieldno (parts ! k)) = (i - 1) mod 2 ^ 32"
      by (rule parse_part_Inr)
  qed
next
  assume h: "descr_fieldno d = Some 0 \<and> descr_type d = Some type_name \<and> by_name type_name \<noteq> mx"
  show "\<exists>p. parse_part by_name mx d = Inr p \<and> uint (fieldno p) = 2 ^ 32 - 1"
    by (rule parse_part_fieldno_0 [of d type_name by_name mx]) (use h in simp_all)
qed

theorem new_stores_fieldno_minus_one_witness:
  "lbox_merger_new example_field_type_by_name 8 Some Some [example_descr 0, example_descr 3]
     = Inr \<lparr>heap = [], count = 0, capacity = 0, sources = [],
            sources_block = Block_null,
            key_def = [\<lparr>fieldno = 4294967295, field_type = 1, coll_id = None, is_nullable = False\<rparr>,
                       \<lparr>fieldno = 2, field_type = 1, coll_id = None, is_nullable = False\<rparr>],
            format = [\<lparr>fieldno = 4294967295, field_type = 1, coll_id = None, is_nullable = False\<rparr>,
                      \<lparr>fieldno = 2, field_type = 1, coll_id = None, is_nullable = False\<rparr>],
            order = 0\<rparr> \<and>
   (\<exists>parts. Some parts = Some (key_def (\<lparr>heap = [], count = 0, capacity = 0, sources = [],
            sources_block = Block_null,
            key_def = [\<lparr>fieldno = 4294967295, field_type = 1, coll_id = None, is_nullable = False\<rparr>,
                       \<lparr>fieldno = 2, field_type = 1, coll_id = None, is_nullable = False\<rparr>],
            format = [\<lparr>fieldno = 4294967295, field_type = 1, coll_id = None, is_nullable = False\<rparr>,
                      \<lparr>fieldno = 2, field_type = 1, coll_id = None, is_nullable = False\<rparr>],
            order = 0\<rparr> :: (nat, nat key_part_def list, nat key_part_def list) merger)) \<and>
      length parts = length [example_descr 0, example_descr 3] \<and>
      (\<forall>k < length [example_descr 0, example_descr 3].
         \<exists>i. descr_fieldno ([example_descr 0, example_descr 3] ! k) = Some i \<and>
             uint (fieldno (parts ! k)) = (i - 1) mod 2 ^ 32)) \<and>
   (\<exists>p. parse_part example_field_type_by_name 8 (example_descr 0) = Inr p \<and>
      uint (fieldno p) = 2 ^ 32 - 1)"
proof -
  have h: "descr_fieldno (example_descr 0) = Some 0 \<and>
           descr_type (example_descr 0) = Some ''unsigned'' \<and>
           example_field_type_by_name ''unsigned'' \<noteq> 8"
    by (simp add: example_descr_def example_field_type_by_name_def)
  have e: "lbox_merger_new example_field_type_by_name 8 Some Some [example_descr 0, example_descr 3]
     = Inr \<lparr>heap = [], count = 0, capacity = 0, sources = [],
            sources_block = Block_null,
            key_def = [\<lparr>fieldno = 4294967295, field_type = 1, coll_id = None, is_nullable = False\<rparr>,
                       \<lparr>fieldno = 2, field_type = 1, coll_id = None, is_nullable = False\<rparr>],
            format = [\<lparr>fieldno = 4294967295, field_type = 1, coll_id = None, is_nullable = False\<rparr>,
                      \<lparr>fieldno = 2, field_type = 1, coll_id = None, is_nullable = False\<rparr>],
            order = 0\<rparr>"
    by (simp add: lbox_merger_new_def parse_part_def example_descr_def
        example_field_type_by_name_def COLL_NONE_def)
  note t = new_stores_fieldno_minus_one [where by_name = example_field_type_by_name
      and mx = 8 and d = "example_descr 0" and type_name = "''unsigned''"]
  show ?thesis
    by (intro conjI e t [THEN conjunct1, THEN mp, OF e] t [THEN conjunct2, THEN mp, OF h])
qed

subsection \<open>\<^verbatim>\<open>lbox_merger_new\<close>: acceptance\<close>

text \<open>
  Claim C8, as amended. On a table of at most 32768 descriptors (the empty table included)
  \<open>new\<close> constructs a merger exactly when every descriptor has a \<open>fieldno\<close> and a \<open>type\<close>
  whose name is known and \<^verbatim>\<open>key_def_new\<close> and \<^verbatim>\<open>box_tuple_format_new\<close> succeed on the parts;
  the parts carry nullability false unless given and no collation. Otherwise a descriptor
  lacks \<open>fieldno\<close> or \<open>type\<close> or names an unknown type: the error is of kind
  \<open>InvalidKeyPart\<close> and no merger is constructed.
\<close>

theorem lbox_merger_new_accepts:
  assumes "length tbl \<le> 32768"
  shows "(list_all (descr_accepted by_name mx) tbl \<longrightarrow>
           lbox_merger_new by_name mx kdn fmtn tbl =
             (case kdn (map (part_of_descr by_name) tbl) of
                None \<Rightarrow> Inl Cannot_create_key_def
              | Some kd \<Rightarrow>
                  (case fmtn kd of
                     None \<Rightarrow> Inl Cannot_create_format
                   | Some fmt \<Rightarrow>
                       Inr \<lparr>heap = [], count = 0, capacity = 0, sources = [],
                            sources_block = Block_null,
                            key_def = kd, format = fmt, order = 0\<rparr>))) \<and>
         (\<not> list_all (descr_accepted by_name mx) tbl \<longrightarrow>
           (\<exists>e. lbox_merger_new by_name mx kdn fmtn tbl = Inl e \<and>
                 kind_of e = Some InvalidKeyPart))"
proof (intro conjI impI)
  have cap: "8 \<in> set capacities" by (simp add: capacities_def)
  {
    assume "list_all (descr_accepted by_name mx) tbl"
    then have "parse_parts by_name mx tbl 0 8 [] = Inr ([] @ map (part_of_descr by_name) tbl)"
      using assms cap by (intro parse_parts_accepted) simp_all
    then show "lbox_merger_new by_name mx kdn fmtn tbl =
             (case kdn (map (part_of_descr by_name) tbl) of
                None \<Rightarrow> Inl Cannot_create_key_def
              | Some kd \<Rightarrow>
                  (case fmtn kd of
                     None \<Rightarrow> Inl Cannot_create_format
                   | Some fmt \<Rightarrow>
                       Inr \<lparr>heap = [], count = 0, capacity = 0, sources = [],
                            sources_block = Block_null,
                            key_def = kd, format = fmt, order = 0\<rparr>))"
      by (simp add: lbox_merger_new_def)
  }
  {
    assume "\<not> list_all (descr_accepted by_name mx) tbl"
    then have "\<exists>e. parse_parts by_name mx tbl 0 8 [] = Inl e \<and> kind_of e = Some InvalidKeyPart"
      using assms cap by (intro parse_parts_rejected) simp_all
    then show "\<exists>e. lbox_merger_new by_name mx kdn fmtn tbl = Inl e \<and>
                 kind_of e = Some InvalidKeyPart"
      by (auto simp: lbox_merger_new_def)
  }
qed

theorem lbox_merger_new_accepts_witness:
  "length [example_descr 1] \<le> 32768 \<and>
   list_all (descr_accepted example_field_type_by_name 8) [example_descr 1] \<and>
   lbox_merger_new example_field_type_by_name 8 Some Some [example_descr 1] =
     Inr \<lparr>heap = [], count = 0, capacity = 0, sources = [],
          sources_block = Block_null,
          key_def = [\<lparr>fieldno = 0, field_type = 1, coll_id = None, is_nullable = False\<rparr>],
          format = [\<lparr>fieldno = 0, field_type = 1, coll_id = None, is_nullable = False\<rparr>],
          order = 0\<rparr> \<and>
   \<not> list_all (descr_accepted example_field_type_by_name 8)
          [example_descr 1, \<lparr>descr_fieldno = Some 2, descr_type = Some ''decimal'', descr_is_nullable = None\<rparr>] \<and>
   lbox_merger_new example_field_type_by_name 8 Some Some
          [example_descr 1, \<lparr>descr_fieldno = Some 2, descr_type = Some ''decimal'', descr_is_nullable = None\<rparr>]
     = (Inl (Unknown_field_type ''decimal'') :: error + (nat, nat key_part_def list, nat key_part_def list) merger)"
  using lbox_merger_new_accepts [of "[example_descr 1]" example_field_type_by_name 8 Some Some]
  by (simp add: descr_accepted_def part_of_descr_def example_descr_def
      example_field_type_by_name_def lbox_merger_new_def parse_part_def)

text \<open>
  The claim C8 as stated fails: \<open>new\<close> constructs a merger from the empty table, and from a
  descriptor whose \<open>fieldno\<close> is 0, which has no valid zero-based index.
\<close>

theorem lbox_merger_new_unchecked:
  "lbox_merger_new example_field_type_by_name 8 Some Some [] =
     Inr \<lparr>heap = [], count = 0, capacity = 0, sources = [],
          sources_block = Block_null,
          key_def = [], format = [], order = 0\<rparr> \<and>
   lbox_merger_new example_field_type_by_name 8 Some Some [example_descr 0] =
     Inr \<lparr>heap = [], count = 0, capacity = 0, sources = [],
          sources_block = Block_null,
          key_def = [\<lparr>fieldno = 4294967295, field_type = 1, coll_id = None, is_nullable = False\<rparr>],
          format = [\<lparr>fieldno = 4294967295, field_type = 1, coll_id = None, is_nullable = False\<rparr>],
          order = 0\<rparr>"
  by (simp add: lbox_merger_new_def parse_part_def example_descr_def
      example_field_type_by_name_def COLL_NONE_def)

subsection \<open>Evaluation and frame facts\<close>

lemmas model_defs =
  lbox_merger_start_def free_sources_def merger_heap_create_def
  start_iteration_def lua_gettable_def start_source_def decode_wrapper_def
  source_fetch_def ibuf_used_def mp_next_def IPROTO_DATA_def box_tuple_ref_def box_tuple_unref_def
  merger_heap_insert_def merger_heap_delete_def merger_heap_update_def merger_heap_top_def
  node_less_def source_less_def lbox_merger_next_def

lemmas example_defs =
  example_merger_def example_world_def example_buffer_def
  example_tuple_def example_box_tuple_new_def example_key_def example_box_tuple_compare_def
  example_INT_MIN_compare_def example_start_def example_next_def
  outcome_error_def outcome_merger_def outcome_world_def

lemma unref_sources_frame [simp]:
  "ibufs (unref_sources ss w) = ibufs w" "callables (unref_sources ss w) = callables w"
  by (induction ss arbitrary: w) (simp_all add: box_tuple_unref_def split: option.splits)

text \<open>
  \<^verbatim>\<open>free_sources\<close> on a merger whose array has not been freed, and on one whose array has.
\<close>

lemma free_sources_live:
  assumes "sources_block m \<noteq> Block_freed"
  shows "free_sources m w =
           (None,
            m\<lparr>count := 0, sources := [],
              sources_block := (if sources_block m = Block_live then Block_freed else Block_null),
              capacity := 0, heap := []\<rparr>,
            unref_sources (take (count m) (sources m)) w)"
  using assms
  by (cases m; cases "sources_block m") (simp_all add: free_sources_def merger_heap_create_def)

lemma free_sources_freed:
  assumes "sources_block m = Block_freed"
  shows "free_sources m w =
           (Some Undefined_behaviour, m\<lparr>count := 0, sources := []\<rparr>,
            unref_sources (take (count m) (sources m)) w)"
  using assms by (cases m) (simp add: free_sources_def)

lemma free_sources_merger [simp]:
  "count (fst (snd (free_sources m w))) = 0"
  "sources (fst (snd (free_sources m w))) = []"
  "order (fst (snd (free_sources m w))) = order m"
  "key_def (fst (snd (free_sources m w))) = key_def m"
  "format (fst (snd (free_sources m w))) = format m"
  by (simp_all add: free_sources_def Let_def split: option.splits)

lemma free_sources_world [simp]:
  "ibufs (snd (snd (free_sources m w))) = ibufs w"
  "callables (snd (snd (free_sources m w))) = callables w"
  "tuple_refs (snd (snd (free_sources m w))) =
     tuple_refs (unref_sources (take (count m) (sources m)) w)"
  by (simp_all add: free_sources_def Let_def split: option.splits)

lemma free_sources_error:
  "fst (free_sources m w) =
     (if sources_block m = Block_freed then Some Undefined_behaviour else None)"
  by (cases "sources_block m") (simp_all add: free_sources_def Let_def)

lemma source_fetch_fields:
  assumes "source_fetch tnew fmt s w = (e, s', w')"
  shows "source_type s' = source_type s" and "input s' = input s"
  using assms
  by (auto simp: source_fetch_def Let_def split: if_splits list.splits call_result.splits
      option.splits prod.splits)

subsection \<open>The loop of \<^verbatim>\<open>lbox_merger_start\<close>\<close>

text \<open>Partial correctness of the loop, by an invariant.\<close>

lemma start_loop_rule:
  assumes run: "start_loop tnew tbl m w = Some r"
    and inv: "I m w"
    and adv: "\<And>m w m' w'. I m w \<Longrightarrow>
      start_iteration tnew (lua_gettable tbl (count m + 1)) m w = Advance m' w' \<Longrightarrow> I m' w'"
    and brk: "\<And>m w. I m w \<Longrightarrow>
      start_iteration tnew (lua_gettable tbl (count m + 1)) m w = Break \<Longrightarrow> Q (None, m, w)"
    and rse: "\<And>m w e m' w'. I m w \<Longrightarrow>
      start_iteration tnew (lua_gettable tbl (count m + 1)) m w = Raise e m' w' \<Longrightarrow>
      Q (Some e, m', w')"
  shows "Q r"
proof -
  have "tnew = tnew \<longrightarrow> tbl = tbl \<longrightarrow> I m w \<longrightarrow> Q r"
  proof (rule start_loop.raw_induct
      [where P = "\<lambda>tn tb m w r. tn = tnew \<longrightarrow> tb = tbl \<longrightarrow> I m w \<longrightarrow> Q r", OF _ run])
    fix f :: "('c \<Rightarrow> mp_token list \<Rightarrow> 'a option) \<Rightarrow> lua_value list \<Rightarrow> ('a, 'b, 'c) merger
        \<Rightarrow> 'a world \<Rightarrow> (error option \<times> ('a, 'b, 'c) merger \<times> 'a world) option"
    fix tn tb m w y
    assume IH: "\<And>tn tb m w y. f tn tb m w = Some y \<Longrightarrow> tn = tnew \<longrightarrow> tb = tbl \<longrightarrow> I m w \<longrightarrow> Q y"
    assume step: "(case start_iteration tn (lua_gettable tb (count m + 1)) m w of
          Break \<Rightarrow> Some (None, m, w)
        | Continue \<Rightarrow> f tn tb m w
        | Advance m' w' \<Rightarrow> f tn tb m' w'
        | Raise e m' w' \<Rightarrow> Some (Some e, m', w')) = Some y"
    show "tn = tnew \<longrightarrow> tb = tbl \<longrightarrow> I m w \<longrightarrow> Q y"
    proof (intro impI)
      assume eq: "tn = tnew" "tb = tbl" and i: "I m w"
      show "Q y"
      proof (cases "start_iteration tnew (lua_gettable tbl (count m + 1)) m w")
        case Break
        with step eq have "y = (None, m, w)" by simp
        with brk [OF i Break] show ?thesis by simp
      next
        case Continue
        with step eq have "f tnew tbl m w = Some y" by simp
        from IH [OF this] i show ?thesis by simp
      next
        case (Advance m' w')
        with step eq have "f tnew tbl m' w' = Some y" by simp
        from IH [OF this] adv [OF i Advance] show ?thesis by simp
      next
        case (Raise e m' w')
        with step eq have "y = (Some e, m', w')" by simp
        with rse [OF i Raise] show ?thesis by simp
      qed
    qed
  qed
  with inv show ?thesis by simp
qed

text \<open>The loop never ends once an iteration ends in \<^verbatim>\<open>continue\<close>.\<close>

lemma start_loop_Continue:
  assumes c: "start_iteration tnew (lua_gettable tbl (count m + 1)) m w = Continue"
  shows "start_loop tnew tbl m w = None"
proof (rule ccontr)
  assume "start_loop tnew tbl m w \<noteq> None"
  then obtain r where run: "start_loop tnew tbl m w = Some r" by auto
  have "start_iteration tnew (lua_gettable tbl (count m + 1)) m w \<noteq> Continue"
  proof (rule start_loop.raw_induct
      [where P = "\<lambda>tn tb m w r. start_iteration tn (lua_gettable tb (count m + 1)) m w \<noteq> Continue",
        OF _ run])
    fix f :: "('c \<Rightarrow> mp_token list \<Rightarrow> 'a option) \<Rightarrow> lua_value list \<Rightarrow> ('a, 'b, 'c) merger
        \<Rightarrow> 'a world \<Rightarrow> (error option \<times> ('a, 'b, 'c) merger \<times> 'a world) option"
    fix tn tb m w y
    assume IH: "\<And>tn tb m w y. f tn tb m w = Some y \<Longrightarrow>
        start_iteration tn (lua_gettable tb (count m + 1)) m w \<noteq> Continue"
    assume step: "(case start_iteration tn (lua_gettable tb (count m + 1)) m w of
          Break \<Rightarrow> Some (None, m, w)
        | Continue \<Rightarrow> f tn tb m w
        | Advance m' w' \<Rightarrow> f tn tb m' w'
        | Raise e m' w' \<Rightarrow> Some (Some e, m', w')) = Some y"
    show "start_iteration tn (lua_gettable tb (count m + 1)) m w \<noteq> Continue"
    proof
      assume k: "start_iteration tn (lua_gettable tb (count m + 1)) m w = Continue"
      with step have "f tn tb m w = Some y" by simp
      from IH [OF this] k show False by simp
    qed
  qed
  with c show False by simp
qed

lemma start_iteration_empty_buffer:
  "ibufs w a = [] \<Longrightarrow> start_iteration tnew (Lua_ibuf a) m w = Continue"
  by (simp add: start_iteration_def ibuf_used_def)

text \<open>The parameters of the comparator are those of the call, whatever the outcome.\<close>

lemma start_iteration_Advance_params:
  assumes "start_iteration tnew v m w = Advance m' w'"
  shows "order m' = order m \<and> key_def m' = key_def m \<and> format m' = format m"
  using assms
  by (auto simp: start_iteration_def start_source_def Let_def free_sources_def
      split: if_splits option.splits prod.splits wrapper.splits)

lemma start_iteration_Raise_params:
  assumes "start_iteration tnew v m w = Raise e m' w'"
  shows "order m' = order m \<and> key_def m' = key_def m \<and> format m' = format m"
  using assms
  by (auto simp: start_iteration_def start_source_def Let_def free_sources_def
      split: if_splits option.splits prod.splits wrapper.splits)

lemma start_loop_params:
  assumes "start_loop tnew tbl m w = Some (e, m', w')"
  shows "order m' = order m \<and> key_def m' = key_def m \<and> format m' = format m"
proof -
  have "order (fst (snd (e, m', w'))) = order m \<and> key_def (fst (snd (e, m', w'))) = key_def m
      \<and> format (fst (snd (e, m', w'))) = format m"
  proof (rule start_loop_rule [OF assms,
        where I = "\<lambda>m1 w1. order m1 = order m \<and> key_def m1 = key_def m \<and> format m1 = format m"])
    show "order m = order m \<and> key_def m = key_def m \<and> format m = format m" by simp
  next
    fix m1 w1 m2 w2
    assume "order m1 = order m \<and> key_def m1 = key_def m \<and> format m1 = format m"
      and "start_iteration tnew (lua_gettable tbl (count m1 + 1)) m1 w1 = Advance m2 w2"
    then show "order m2 = order m \<and> key_def m2 = key_def m \<and> format m2 = format m"
      using start_iteration_Advance_params [of tnew _ m1 w1 m2 w2] by simp
  next
    fix m1 w1
    assume "order m1 = order m \<and> key_def m1 = key_def m \<and> format m1 = format m"
    then show "order (fst (snd (None, m1, w1))) = order m \<and>
       key_def (fst (snd (None, m1, w1))) = key_def m \<and> format (fst (snd (None, m1, w1))) = format m"
      by simp
  next
    fix m1 w1 e1 m2 w2
    assume "order m1 = order m \<and> key_def m1 = key_def m \<and> format m1 = format m"
      and "start_iteration tnew (lua_gettable tbl (count m1 + 1)) m1 w1 = Raise e1 m2 w2"
    then show "order (fst (snd (Some e1, m2, w2))) = order m \<and>
       key_def (fst (snd (Some e1, m2, w2))) = key_def m \<and> format (fst (snd (Some e1, m2, w2))) = format m"
      using start_iteration_Raise_params [of tnew _ m1 w1 e1 m2 w2] by simp
  qed
  then show ?thesis by simp
qed

text \<open>
  \<^verbatim>\<open>lbox_merger_start\<close> is the loop from the emptied merger, unless the array of the merger
  has been freed before: then \<^verbatim>\<open>free_sources\<close> frees it a second time.
\<close>

lemma lbox_merger_start_cases:
  "lbox_merger_start tnew m w tbl ord =
     (if sources_block m = Block_freed
      then Some (Some Undefined_behaviour,
                 m\<lparr>order := order_of ord, count := 0, sources := []\<rparr>,
                 unref_sources (take (count m) (sources m)) w)
      else start_loop tnew tbl
             (m\<lparr>order := order_of ord, count := 0, sources := [], sources_block := Block_live,
                capacity := 8, heap := []\<rparr>)
             (unref_sources (take (count m) (sources m)) w))"
  by (cases m; cases "sources_block m")
    (simp_all add: lbox_merger_start_def free_sources_def merger_heap_create_def order_of_def)

lemma lbox_merger_start_params:
  assumes "lbox_merger_start tnew m w tbl ord = Some (e, m', w')"
  shows "order m' = order_of ord \<and> key_def m' = key_def m \<and> format m' = format m"
proof (cases "sources_block m = Block_freed")
  case True
  with assms show ?thesis by (auto simp: lbox_merger_start_cases)
next
  case False
  with assms have "start_loop tnew tbl
      (m\<lparr>order := order_of ord, count := 0, sources := [], sources_block := Block_live,
         capacity := 8, heap := []\<rparr>)
      (unref_sources (take (count m) (sources m)) w) = Some (e, m', w')"
    by (simp add: lbox_merger_start_cases)
  from start_loop_params [OF this] show ?thesis by simp
qed

lemma lbox_merger_next_params:
  assumes "lbox_merger_next cmp tnew m w = (r, m', w')"
  shows "order m' = order m \<and> key_def m' = key_def m \<and> format m' = format m"
  using assms
  by (auto simp: lbox_merger_next_def split: option.splits prod.splits)

lemma merge_run_params:
  "merge_run cmp tnew n m w = (out, r, m', w') \<Longrightarrow>
     order m' = order m \<and> key_def m' = key_def m \<and> format m' = format m"
proof (induction n arbitrary: m w out r m' w')
  case 0
  then show ?case by simp
next
  case (Suc n)
  obtain x m1 w1 where nx: "lbox_merger_next cmp tnew m w = (x, m1, w1)"
    by (cases "lbox_merger_next cmp tnew m w") auto
  note p = lbox_merger_next_params [OF nx]
  show ?case
  proof (cases x)
    case (Inl e)
    with Suc.prems nx p show ?thesis by simp
  next
    case (Inr v)
    show ?thesis
    proof (cases v)
      case None
      with Suc.prems nx p Inr show ?thesis by simp
    next
      case (Some t)
      obtain ts r1 m2 w2 where rn: "merge_run cmp tnew n m1 w1 = (ts, r1, m2, w2)"
        by (cases "merge_run cmp tnew n m1 w1") auto
      with Suc.prems nx Inr Some have "m' = m2" by simp
      with Suc.IH [OF rn] p show ?thesis by simp
    qed
  qed
qed

text \<open>
  The product of two \<^verbatim>\<open>int\<close>s against the product of the numbers: they differ where the
  order is \<open>-1\<close> and the comparator returns \<^verbatim>\<open>INT_MIN\<close>, and nowhere else.
\<close>

lemma sint_neg_32:
  fixes c :: "32 word"
  assumes "c \<noteq> - 2147483648"
  shows "sint (- c) = - sint c"
proof -
  have "sint c \<noteq> - 2147483648"
  proof
    assume "sint c = - 2147483648"
    then have "word_of_int (sint c) = (word_of_int (- 2147483648) :: 32 word)" by simp
    then have "c = - 2147483648" by simp
    with assms show False by simp
  qed
  moreover have "- (2 ^ 31) \<le> sint c" "sint c < 2 ^ 31"
    using sint_ge [of c] sint_lt [of c] by simp_all
  ultimately have "- (2 ^ 31) \<le> - sint c \<and> - sint c < 2 ^ 31" by simp
  then have "signed_take_bit 31 (- sint c) = - sint c"
    by (simp add: signed_take_bit_int_eq_self_iff)
  then show ?thesis by (simp add: sint_word_minus)
qed

lemma source_less_spec:
  assumes "order m = order_of ord"
    and "0 \<le> ord \<or> (\<forall>x y. tuple a = Some x \<and> tuple b = Some y \<longrightarrow>
                       cmp x y (key_def m) \<noteq> - 2147483648)"
  shows "source_less cmp m a b =
           spec_less (direction_of ord) (compare_value cmp (key_def m)) (tuple a) (tuple b)"
proof (cases "tuple a")
  case None
  then show ?thesis by (cases "tuple b") (simp_all add: source_less_def)
next
  case a: (Some x)
  show ?thesis
  proof (cases "tuple b")
    case None
    with a show ?thesis by (simp add: source_less_def)
  next
    case b: (Some y)
    show ?thesis
    proof (cases "0 \<le> ord")
      case True
      with a b assms(1) show ?thesis
        by (simp add: source_less_def order_of_def direction_of_def compare_value_def)
    next
      case False
      with assms(2) a b have "cmp x y (key_def m) \<noteq> - 2147483648" by simp
      from sint_neg_32 [OF this] False a b assms(1) show ?thesis
        by (simp add: source_less_def order_of_def direction_of_def compare_value_def)
    qed
  qed
qed
subsection \<open>The less-predicate of the heap\<close>

text \<open>
  Claim C5. For every pair of cursors and at every point of a merge run (after \<open>start\<close>
  has returned or raised, and after any number of calls of \<open>next\<close>), \<^verbatim>\<open>source_less\<close> is the
  predicate of the specification: false when both heads are none, false when only the
  head of \<open>a\<close> is none, true when only the head of \<open>b\<close> is none, and otherwise
  \<open>direction * compare(a.head, b.head, key_def) < 0\<close>, where the direction is \<open>+1\<close> when the
  integer passed to \<open>start\<close> is at least 0 and \<open>-1\<close> otherwise; provided that integer is at
  least 0 or the comparator does not return \<^verbatim>\<open>INT_MIN\<close> on the two heads.
\<close>

theorem source_less_is_spec_less:
  assumes "lbox_merger_start tnew m w tbl ord = Some (e, m1, w1)"
    and "merge_run cmp tnew n m1 w1 = (out, r, m2, w2)"
    and "0 \<le> ord \<or> (\<forall>x y. tuple a = Some x \<and> tuple b = Some y \<longrightarrow>
                       cmp x y (key_def m) \<noteq> - 2147483648)"
  shows "source_less cmp m2 a b =
           spec_less (direction_of ord) (compare_value cmp (key_def m)) (tuple a) (tuple b)"
proof -
  from lbox_merger_start_params [OF assms(1)] merge_run_params [OF assms(2)]
  have "order m2 = order_of ord" "key_def m2 = key_def m" by simp_all
  with source_less_spec [of m2 ord a b cmp] assms(3) show ?thesis by simp
qed

theorem source_less_is_spec_less_witness:
  "\<exists>m1 w1 out r m2 w2.
     lbox_merger_start example_box_tuple_new example_merger example_world
       [Lua_ibuf 5, Lua_ibuf 6] (- 1) = Some (None, m1, w1) \<and>
     merge_run example_box_tuple_compare example_box_tuple_new 2 m1 w1 = (out, r, m2, w2) \<and>
     example_box_tuple_compare (example_tuple 3) (example_tuple 4) (key_def example_merger)
       \<noteq> - 2147483648 \<and>
     source_less example_box_tuple_compare m2
         \<lparr>source_type = SOURCE_TYPE_BUFFER, input = 5, tuple = Some (example_tuple 3)\<rparr>
         \<lparr>source_type = SOURCE_TYPE_BUFFER, input = 6, tuple = Some (example_tuple 4)\<rparr> =
       spec_less (direction_of (- 1))
         (compare_value example_box_tuple_compare (key_def example_merger))
         (tuple \<lparr>source_type = SOURCE_TYPE_BUFFER, input = 5, tuple = Some (example_tuple 3)\<rparr>)
         (tuple \<lparr>source_type = SOURCE_TYPE_BUFFER, input = 6, tuple = Some (example_tuple 4)\<rparr>) \<and>
     order m2 = - 1 \<and>
     \<not> source_less example_box_tuple_compare m2
         \<lparr>source_type = SOURCE_TYPE_BUFFER, input = 5, tuple = Some (example_tuple 3)\<rparr>
         \<lparr>source_type = SOURCE_TYPE_BUFFER, input = 6, tuple = Some (example_tuple 4)\<rparr>"
proof -
  have "\<exists>m1 w1. lbox_merger_start example_box_tuple_new example_merger example_world
       [Lua_ibuf 5, Lua_ibuf 6] (- 1) = Some (None, m1, w1) \<and> order m1 = - 1 \<and>
       key_def m1 = key_def example_merger"
    by (simp add: model_defs example_defs start_loop.simps)
  then obtain m1 w1 where st: "lbox_merger_start example_box_tuple_new example_merger
       example_world [Lua_ibuf 5, Lua_ibuf 6] (- 1) = Some (None, m1, w1)"
    and o1: "order m1 = - 1" and k1: "key_def m1 = key_def example_merger"
    by blast
  obtain out r m2 w2 where
    run: "merge_run example_box_tuple_compare example_box_tuple_new 2 m1 w1 = (out, r, m2, w2)"
    by (cases "merge_run example_box_tuple_compare example_box_tuple_new 2 m1 w1") auto
  have o2: "order m2 = - 1"
    using merge_run_params [OF run] o1 by simp
  have ne: "example_box_tuple_compare (example_tuple 3) (example_tuple 4)
      (key_def example_merger) \<noteq> - 2147483648"
    by (simp add: example_defs)
  have h: "0 \<le> (- 1 :: int) \<or>
      (\<forall>x y. tuple \<lparr>source_type = SOURCE_TYPE_BUFFER, input = 5, tuple = Some (example_tuple 3)\<rparr>
                = Some x \<and>
             tuple \<lparr>source_type = SOURCE_TYPE_BUFFER, input = 6, tuple = Some (example_tuple 4)\<rparr>
                = Some y \<longrightarrow>
             example_box_tuple_compare x y (key_def example_merger) \<noteq> - 2147483648)"
    using ne by simp
  note t = source_less_is_spec_less [OF st run h]
  have nl: "\<not> source_less example_box_tuple_compare m2
         \<lparr>source_type = SOURCE_TYPE_BUFFER, input = 5, tuple = Some (example_tuple 3)\<rparr>
         \<lparr>source_type = SOURCE_TYPE_BUFFER, input = 6, tuple = Some (example_tuple 4)\<rparr>"
    unfolding t by (simp add: direction_of_def compare_value_def example_defs)
  show ?thesis
    by (rule exI [of _ m1], rule exI [of _ w1], rule exI [of _ out], rule exI [of _ r],
        rule exI [of _ m2], rule exI [of _ w2], intro conjI st run ne t o2 nl)
qed

text \<open>
  The claim C5 as stated fails where the direction is \<open>-1\<close> and the comparator returns
  \<^verbatim>\<open>INT_MIN\<close>: the product of the two \<^verbatim>\<open>int\<close>s wraps around to \<^verbatim>\<open>INT_MIN\<close>, which is negative,
  and \<^verbatim>\<open>source_less\<close> answers true, while \<open>-1 * compare\<close> is \<open>2^31\<close>, which is not.
\<close>

theorem source_less_overflow:
  "example_start [Lua_ibuf 5, Lua_ibuf 6] (- 1) \<noteq> None \<and>
   outcome_error (example_start [Lua_ibuf 5, Lua_ibuf 6] (- 1)) = None \<and>
   order (outcome_merger (example_start [Lua_ibuf 5, Lua_ibuf 6] (- 1))) = - 1 \<and>
   map tuple (sources (outcome_merger (example_start [Lua_ibuf 5, Lua_ibuf 6] (- 1))))
     = [Some (example_tuple 5), Some (example_tuple 6)] \<and>
   example_INT_MIN_compare (example_tuple 5) (example_tuple 6) (key_def example_merger)
     = - 2147483648 \<and>
   source_less example_INT_MIN_compare
     (outcome_merger (example_start [Lua_ibuf 5, Lua_ibuf 6] (- 1)))
     (sources (outcome_merger (example_start [Lua_ibuf 5, Lua_ibuf 6] (- 1))) ! 0)
     (sources (outcome_merger (example_start [Lua_ibuf 5, Lua_ibuf 6] (- 1))) ! 1) \<and>
   \<not> spec_less (direction_of (- 1))
       (compare_value example_INT_MIN_compare (key_def example_merger))
       (Some (example_tuple 5)) (Some (example_tuple 6))"
  by (simp add: model_defs example_defs start_loop.simps direction_of_def compare_value_def)
subsection \<open>An empty buffer in the table\<close>

text \<open>
  Claim C3 says that \<open>start\<close> terminates on every finite table and skips the buffers that
  are already empty. On the table of scenario 3 of the specification (an empty buffer, the
  buffer \<open>[[1],[1],[2]]\<close>, a function yielding \<open>[1]\<close>) the loop of \<^verbatim>\<open>lbox_merger_start\<close> reads
  the empty buffer at key 1, takes \<^verbatim>\<open>continue\<close> with \<^verbatim>\<open>merger->count\<close> still 0, and reads
  key 1 again: the call never returns.
\<close>

theorem start_never_returns_on_empty_buffer:
  "lbox_merger_start example_box_tuple_new example_merger example_world
     [Lua_ibuf 0, Lua_ibuf 1, Lua_function 0] 1 = None"
proof -
  have "start_iteration example_box_tuple_new
          (lua_gettable [Lua_ibuf 0, Lua_ibuf 1, Lua_function 0] (count m + 1)) m w = Continue"
    if "count m = 0" "ibufs w 0 = []"
    for m :: "(mp_token list, nat key_part_def list, nat key_part_def list) merger" and w
    using that by (simp add: lua_gettable_def start_iteration_empty_buffer)
  then show ?thesis
    by (simp add: lbox_merger_start_cases example_merger_def start_loop_Continue
        example_world_def)
qed

lemma heap_least_mem: "heap_least lt x xs \<in> set (x # xs)"
  by (induction xs arbitrary: x) auto

subsection \<open>One call of \<^verbatim>\<open>lbox_merger_next\<close>\<close>

text \<open>
  Claim C4. A call of \<open>next\<close> on an empty heap returns the end of the stream and changes
  nothing. On a non-empty heap it takes the cursor \<open>c\<close> at the top of the heap, a member of
  the heap, with head \<open>t\<close>, gives up the reference to \<open>t\<close> and runs the fetch of the next
  record of \<open>c\<close>, whose result replaces the head of \<open>c\<close>. If the fetch succeeds, the call
  returns \<open>t\<close>, and \<open>c\<close> is deleted from the heap when the new head is none and updated
  otherwise. If the fetch raises an error, the call raises that error: \<open>t\<close> is not
  returned, \<open>c\<close> is left without a head, and the heap is neither deleted from nor updated.
  (A cursor without a head at the top of the heap makes \<^verbatim>\<open>luaT_pushtuple\<close> read \<^verbatim>\<open>NULL\<close>.)
\<close>

theorem lbox_merger_next_algorithm:
  "(heap m = [] \<longrightarrow> lbox_merger_next cmp tnew m w = (Inr None, m, w)) \<and>
   (heap m \<noteq> [] \<longrightarrow>
      (\<exists>c. merger_heap_top (node_less cmp m) (heap m) = Some c \<and> c \<in> set (heap m) \<and>
         (tuple (sources m ! c) = None \<longrightarrow>
            lbox_merger_next cmp tnew m w = (Inl Undefined_behaviour, m, w)) \<and>
         (\<forall>t. tuple (sources m ! c) = Some t \<longrightarrow>
            (\<exists>e s' w'.
               source_fetch tnew (format m) (sources m ! c) (box_tuple_unref t w) = (e, s', w') \<and>
               (e = None \<longrightarrow>
                  lbox_merger_next cmp tnew m w =
                    (Inr (Some t),
                     m\<lparr>sources := (sources m)[c := s'],
                       heap := (if tuple s' = None then merger_heap_delete (heap m) c
                                else merger_heap_update (heap m) c)\<rparr>,
                     w')) \<and>
               (\<forall>x. e = Some x \<longrightarrow>
                  tuple s' = None \<and>
                  lbox_merger_next cmp tnew m w =
                    (Inl x, m\<lparr>sources := (sources m)[c := s'], heap := heap m\<rparr>, w'))))))"
proof (intro conjI impI)
  assume "heap m = []"
  then show "lbox_merger_next cmp tnew m w = (Inr None, m, w)"
    by (simp add: lbox_merger_next_def merger_heap_top_def)
next
  assume ne: "heap m \<noteq> []"
  then obtain c where c: "merger_heap_top (node_less cmp m) (heap m) = Some c"
    by (cases "heap m") (simp_all add: merger_heap_top_def)
  have mem: "c \<in> set (heap m)"
    using c heap_least_mem [of "node_less cmp m" "hd (heap m)" "tl (heap m)"] ne
    by (cases "heap m") (auto simp: merger_heap_top_def)
  have none: "lbox_merger_next cmp tnew m w = (Inl Undefined_behaviour, m, w)"
    if "tuple (sources m ! c) = None"
    using that c by (simp add: lbox_merger_next_def)
  have some: "\<exists>e s' w'.
               source_fetch tnew (format m) (sources m ! c) (box_tuple_unref t w) = (e, s', w') \<and>
               (e = None \<longrightarrow>
                  lbox_merger_next cmp tnew m w =
                    (Inr (Some t),
                     m\<lparr>sources := (sources m)[c := s'],
                       heap := (if tuple s' = None then merger_heap_delete (heap m) c
                                else merger_heap_update (heap m) c)\<rparr>,
                     w')) \<and>
               (\<forall>x. e = Some x \<longrightarrow>
                  tuple s' = None \<and>
                  lbox_merger_next cmp tnew m w =
                    (Inl x, m\<lparr>sources := (sources m)[c := s'], heap := heap m\<rparr>, w'))"
    if t: "tuple (sources m ! c) = Some t" for t
  proof -
    obtain e s' w' where
      f: "source_fetch tnew (format m) (sources m ! c) (box_tuple_unref t w) = (e, s', w')"
      by (cases "source_fetch tnew (format m) (sources m ! c) (box_tuple_unref t w)") auto
    have ok: "lbox_merger_next cmp tnew m w =
                    (Inr (Some t),
                     m\<lparr>sources := (sources m)[c := s'],
                       heap := (if tuple s' = None then merger_heap_delete (heap m) c
                                else merger_heap_update (heap m) c)\<rparr>,
                     w')" if "e = None"
      using that c t f by (simp add: lbox_merger_next_def)
    have err: "tuple s' = None \<and>
                  lbox_merger_next cmp tnew m w =
                    (Inl x, m\<lparr>sources := (sources m)[c := s'], heap := heap m\<rparr>, w')"
      if "e = Some x" for x
    proof
      from f that show "tuple s' = None"
        by (auto simp: source_fetch_def Let_def split: if_splits list.splits call_result.splits
            option.splits prod.splits)
      from that c t f show "lbox_merger_next cmp tnew m w =
                    (Inl x, m\<lparr>sources := (sources m)[c := s'], heap := heap m\<rparr>, w')"
        by (simp add: lbox_merger_next_def)
    qed
    show ?thesis
    proof (rule exI [of _ e], rule exI [of _ s'], rule exI [of _ w'], intro conjI impI allI)
      show "source_fetch tnew (format m) (sources m ! c) (box_tuple_unref t w) = (e, s', w')"
        by (rule f)
      show "lbox_merger_next cmp tnew m w =
                    (Inr (Some t),
                     m\<lparr>sources := (sources m)[c := s'],
                       heap := (if tuple s' = None then merger_heap_delete (heap m) c
                                else merger_heap_update (heap m) c)\<rparr>,
                     w')" if "e = None" using that by (rule ok)
      show "tuple s' = None" if "e = Some x" for x using err [OF that] by simp
      show "lbox_merger_next cmp tnew m w =
                    (Inl x, m\<lparr>sources := (sources m)[c := s'], heap := heap m\<rparr>, w')"
        if "e = Some x" for x using err [OF that] by simp
    qed
  qed
  show "\<exists>c. merger_heap_top (node_less cmp m) (heap m) = Some c \<and> c \<in> set (heap m) \<and>
         (tuple (sources m ! c) = None \<longrightarrow>
            lbox_merger_next cmp tnew m w = (Inl Undefined_behaviour, m, w)) \<and>
         (\<forall>t. tuple (sources m ! c) = Some t \<longrightarrow>
            (\<exists>e s' w'.
               source_fetch tnew (format m) (sources m ! c) (box_tuple_unref t w) = (e, s', w') \<and>
               (e = None \<longrightarrow>
                  lbox_merger_next cmp tnew m w =
                    (Inr (Some t),
                     m\<lparr>sources := (sources m)[c := s'],
                       heap := (if tuple s' = None then merger_heap_delete (heap m) c
                                else merger_heap_update (heap m) c)\<rparr>,
                     w')) \<and>
               (\<forall>x. e = Some x \<longrightarrow>
                  tuple s' = None \<and>
                  lbox_merger_next cmp tnew m w =
                    (Inl x, m\<lparr>sources := (sources m)[c := s'], heap := heap m\<rparr>, w'))))"
  proof (rule exI [of _ c], intro conjI allI impI)
    show "merger_heap_top (node_less cmp m) (heap m) = Some c" by (rule c)
    show "c \<in> set (heap m)" by (rule mem)
    show "lbox_merger_next cmp tnew m w = (Inl Undefined_behaviour, m, w)"
      if "tuple (sources m ! c) = None" using that by (rule none)
    show "\<exists>e s' w'.
               source_fetch tnew (format m) (sources m ! c) (box_tuple_unref t w) = (e, s', w') \<and>
               (e = None \<longrightarrow>
                  lbox_merger_next cmp tnew m w =
                    (Inr (Some t),
                     m\<lparr>sources := (sources m)[c := s'],
                       heap := (if tuple s' = None then merger_heap_delete (heap m) c
                                else merger_heap_update (heap m) c)\<rparr>,
                     w')) \<and>
               (\<forall>x. e = Some x \<longrightarrow>
                  tuple s' = None \<and>
                  lbox_merger_next cmp tnew m w =
                    (Inl x, m\<lparr>sources := (sources m)[c := s'], heap := heap m\<rparr>, w'))"
      if "tuple (sources m ! c) = Some t" for t using that by (rule some)
  qed
qed

theorem lbox_merger_next_algorithm_witness:
  "heap example_merger = [] \<and>
   lbox_merger_next example_box_tuple_compare example_box_tuple_new example_merger example_world
     = (Inr None, example_merger, example_world) \<and>
   (\<exists>m1 w1 m2 w2.
      lbox_merger_start example_box_tuple_new example_merger example_world
        [Lua_ibuf 2, Lua_ibuf 3] 1 = Some (None, m1, w1) \<and>
      heap m1 \<noteq> [] \<and>
      merger_heap_top (node_less example_box_tuple_compare m1) (heap m1) = Some 0 \<and>
      tuple (sources m1 ! 0) = Some (example_tuple 1) \<and>
      lbox_merger_next example_box_tuple_compare example_box_tuple_new m1 w1
        = (Inr (Some (example_tuple 1)), m2, w2) \<and>
      tuple (sources m2 ! 0) = Some (example_tuple 3) \<and>
      heap m2 = merger_heap_update (heap m1) 0 \<and>
      tuple_refs w2 = {#example_tuple 3, example_tuple 2#}) \<and>
   (\<exists>m1 w1 m2 w2.
      lbox_merger_start example_box_tuple_new example_merger example_world
        [Lua_function 1] 1 = Some (None, m1, w1) \<and>
      heap m1 \<noteq> [] \<and>
      merger_heap_top (node_less example_box_tuple_compare m1) (heap m1) = Some 0 \<and>
      tuple (sources m1 ! 0) = Some (example_tuple 1) \<and>
      lbox_merger_next example_box_tuple_compare example_box_tuple_new m1 w1
        = (Inl Producer_fault, m2, w2) \<and>
      tuple (sources m2 ! 0) = None \<and>
      heap m2 = heap m1)"
proof -
  have h: "heap example_merger = []"
    by (simp add: example_merger_def)
  note a = lbox_merger_next_algorithm [of example_merger example_box_tuple_compare
      example_box_tuple_new example_world, THEN conjunct1, THEN mp, OF h]
  have "\<exists>m1 w1. lbox_merger_start example_box_tuple_new example_merger example_world
        [Lua_ibuf 2, Lua_ibuf 3] 1 = Some (None, m1, w1) \<and> heap m1 = [0, 1] \<and>
      0 < length (sources m1) \<and>
      merger_heap_top (node_less example_box_tuple_compare m1) (heap m1) = Some 0 \<and>
      tuple (sources m1 ! 0) = Some (example_tuple 1) \<and>
      (\<exists>s' w'. source_fetch example_box_tuple_new (format m1) (sources m1 ! 0)
          (box_tuple_unref (example_tuple 1) w1) = (None, s', w') \<and>
          tuple s' = Some (example_tuple 3) \<and>
          tuple_refs w' = {#example_tuple 3, example_tuple 2#})"
    by (simp add: model_defs example_defs start_loop.simps)
  then obtain m1 w1 s' w' where
    st: "lbox_merger_start example_box_tuple_new example_merger example_world
        [Lua_ibuf 2, Lua_ibuf 3] 1 = Some (None, m1, w1)"
    and hp: "heap m1 = [0, 1]"
    and len: "0 < length (sources m1)"
    and top: "merger_heap_top (node_less example_box_tuple_compare m1) (heap m1) = Some 0"
    and hd: "tuple (sources m1 ! 0) = Some (example_tuple 1)"
    and ft: "source_fetch example_box_tuple_new (format m1) (sources m1 ! 0)
          (box_tuple_unref (example_tuple 1) w1) = (None, s', w')"
    and s': "tuple s' = Some (example_tuple 3)"
    and w': "tuple_refs w' = {#example_tuple 3, example_tuple 2#}"
    by blast
  have ne: "heap m1 \<noteq> []"
    using hp by simp
  define m2 where "m2 = m1\<lparr>sources := (sources m1)[0 := s'],
          heap := (if tuple s' = None then merger_heap_delete (heap m1) 0
                   else merger_heap_update (heap m1) 0)\<rparr>"
  from lbox_merger_next_algorithm [of m1 example_box_tuple_compare example_box_tuple_new w1,
      THEN conjunct2, THEN mp, OF ne] top hd ft
  have nx: "lbox_merger_next example_box_tuple_compare example_box_tuple_new m1 w1 =
      (Inr (Some (example_tuple 1)), m2, w')"
    unfolding m2_def by auto
  have hd2: "tuple (sources m2 ! 0) = Some (example_tuple 3)"
    using s' len by (simp add: m2_def)
  have hp2: "heap m2 = merger_heap_update (heap m1) 0"
    using s' by (simp add: m2_def)
  have "\<exists>n1 v1. lbox_merger_start example_box_tuple_new example_merger example_world
        [Lua_function 1] 1 = Some (None, n1, v1) \<and> heap n1 = [0] \<and>
      0 < length (sources n1) \<and>
      merger_heap_top (node_less example_box_tuple_compare n1) (heap n1) = Some 0 \<and>
      tuple (sources n1 ! 0) = Some (example_tuple 1) \<and>
      (\<exists>s' w'. source_fetch example_box_tuple_new (format n1) (sources n1 ! 0)
          (box_tuple_unref (example_tuple 1) v1) = (Some Producer_fault, s', w'))"
    by (simp add: model_defs example_defs start_loop.simps)
  then obtain n1 v1 r' v' where
    st_r: "lbox_merger_start example_box_tuple_new example_merger example_world
        [Lua_function 1] 1 = Some (None, n1, v1)"
    and hp_r: "heap n1 = [0]"
    and len_r: "0 < length (sources n1)"
    and top_r: "merger_heap_top (node_less example_box_tuple_compare n1) (heap n1) = Some 0"
    and hd_r: "tuple (sources n1 ! 0) = Some (example_tuple 1)"
    and ft_r: "source_fetch example_box_tuple_new (format n1) (sources n1 ! 0)
          (box_tuple_unref (example_tuple 1) v1) = (Some Producer_fault, r', v')"
    by blast
  have ne_r: "heap n1 \<noteq> []"
    using hp_r by simp
  define n2 where "n2 = n1\<lparr>sources := (sources n1)[0 := r'], heap := heap n1\<rparr>"
  from lbox_merger_next_algorithm [of n1 example_box_tuple_compare example_box_tuple_new v1,
      THEN conjunct2, THEN mp, OF ne_r] top_r hd_r ft_r
  have nx_r: "tuple r' = None \<and>
      lbox_merger_next example_box_tuple_compare example_box_tuple_new n1 v1 =
        (Inl Producer_fault, n2, v')"
    unfolding n2_def by auto
  have hd2_r: "tuple (sources n2 ! 0) = None"
    using nx_r len_r by (simp add: n2_def)
  have hp2_r: "heap n2 = heap n1"
    by (simp add: n2_def)
  have first: "\<exists>m1 w1 m2 w2.
      lbox_merger_start example_box_tuple_new example_merger example_world
        [Lua_ibuf 2, Lua_ibuf 3] 1 = Some (None, m1, w1) \<and>
      heap m1 \<noteq> [] \<and>
      merger_heap_top (node_less example_box_tuple_compare m1) (heap m1) = Some 0 \<and>
      tuple (sources m1 ! 0) = Some (example_tuple 1) \<and>
      lbox_merger_next example_box_tuple_compare example_box_tuple_new m1 w1
        = (Inr (Some (example_tuple 1)), m2, w2) \<and>
      tuple (sources m2 ! 0) = Some (example_tuple 3) \<and>
      heap m2 = merger_heap_update (heap m1) 0 \<and>
      tuple_refs w2 = {#example_tuple 3, example_tuple 2#}"
    by (rule exI [of _ m1], rule exI [of _ w1], rule exI [of _ m2], rule exI [of _ w'],
        intro conjI st ne top hd nx hd2 hp2 w')
  have second: "\<exists>m1 w1 m2 w2.
      lbox_merger_start example_box_tuple_new example_merger example_world
        [Lua_function 1] 1 = Some (None, m1, w1) \<and>
      heap m1 \<noteq> [] \<and>
      merger_heap_top (node_less example_box_tuple_compare m1) (heap m1) = Some 0 \<and>
      tuple (sources m1 ! 0) = Some (example_tuple 1) \<and>
      lbox_merger_next example_box_tuple_compare example_box_tuple_new m1 w1
        = (Inl Producer_fault, m2, w2) \<and>
      tuple (sources m2 ! 0) = None \<and>
      heap m2 = heap m1"
    by (rule exI [of _ n1], rule exI [of _ v1], rule exI [of _ n2], rule exI [of _ v'],
        intro conjI st_r ne_r top_r hd_r nx_r [THEN conjunct2] hd2_r hp2_r)
  show ?thesis
    by (intro conjI h a first second)
qed

text \<open>
  The claim C4 as stated fails where the function of the cursor at the top of the heap
  raises an error: after \<open>start\<close> on a table with the one function that yields \<open>[1]\<close> and
  raises at its second call, \<open>next\<close> gives up the reference to the head \<open>[1]\<close> and raises the
  error of the function. The head is not returned, the cursor keeps no head, and it is
  still in the heap: it is neither deleted nor updated.
\<close>

theorem lbox_merger_next_producer_raises:
  "example_start [Lua_function 1] 1 \<noteq> None \<and>
   outcome_error (example_start [Lua_function 1] 1) = None \<and>
   heap (outcome_merger (example_start [Lua_function 1] 1)) = [0] \<and>
   tuple (sources (outcome_merger (example_start [Lua_function 1] 1)) ! 0)
     = Some (example_tuple 1) \<and>
   tuple_refs (outcome_world (example_start [Lua_function 1] 1)) = {#example_tuple 1#} \<and>
   fst (example_next (example_start [Lua_function 1] 1)) = Inl Producer_fault \<and>
   heap (fst (snd (example_next (example_start [Lua_function 1] 1)))) = [0] \<and>
   tuple (sources (fst (snd (example_next (example_start [Lua_function 1] 1)))) ! 0) = None \<and>
   tuple_refs (snd (snd (example_next (example_start [Lua_function 1] 1)))) = {#}"
  by (simp add: model_defs example_defs start_loop.simps)
subsection \<open>Tables that agree up to a stopping entry\<close>

lemma start_iteration_stops:
  "stops_enumeration v \<Longrightarrow> start_iteration tnew v m w = Break"
  by (cases v) (simp_all add: stops_enumeration_def start_iteration_def)

lemma start_iteration_Break:
  "start_iteration tnew v m w = Break \<Longrightarrow> stops_enumeration v"
  by (cases v)
    (auto simp: stops_enumeration_def start_iteration_def start_source_def Let_def
      split: if_splits prod.splits wrapper.splits option.splits)

lemma start_iteration_Advance_count:
  "start_iteration tnew v m w = Advance m' w' \<Longrightarrow> count m' = count m + 1"
  by (auto simp: start_iteration_def start_source_def Let_def
      split: if_splits prod.splits wrapper.splits option.splits)

lemma start_iteration_Raise_count:
  "start_iteration tnew v m w = Raise e m' w' \<Longrightarrow> count m' = count m \<or> count m' = 0"
  by (auto simp: start_iteration_def start_source_def Let_def free_sources_def
      split: if_splits prod.splits wrapper.splits option.splits)

lemma stops_enumeration_nil [simp]: "stops_enumeration Lua_nil"
  by (simp add: stops_enumeration_def)

lemma lua_gettable_beyond: "length tbl < k \<Longrightarrow> lua_gettable tbl k = Lua_nil"
  by (simp add: lua_gettable_def)







text \<open>An error is raised only before the end of the table has been reached.\<close>

lemma start_loop_error_count:
  assumes "start_loop tnew tbl m w = Some (Some e, m', w')" and "count m \<le> length tbl"
  shows "count m' < length tbl"
proof -
  have "fst (Some e, m', w') \<noteq> None \<longrightarrow> count (fst (snd (Some e, m', w'))) < length tbl"
  proof (rule start_loop_rule [OF assms(1), where I = "\<lambda>m w. count m \<le> length tbl"])
    show "count m \<le> length tbl" by (rule assms(2))
  next
    fix m1 w1 m2 w2
    assume le: "count m1 \<le> length tbl"
      and it: "start_iteration tnew (lua_gettable tbl (count m1 + 1)) m1 w1 = Advance m2 w2"
    have "count m1 \<noteq> length tbl"
      using it by (auto simp: lua_gettable_beyond start_iteration_stops)
    with le start_iteration_Advance_count [OF it] show "count m2 \<le> length tbl" by simp
  next
    fix m1 w1
    show "fst (None, m1, w1) \<noteq> None \<longrightarrow> count (fst (snd (None, m1, w1))) < length tbl"
      by simp
  next
    fix m1 w1 e1 m2 w2
    assume le: "count m1 \<le> length tbl"
      and it: "start_iteration tnew (lua_gettable tbl (count m1 + 1)) m1 w1 = Raise e1 m2 w2"
    have "count m1 \<noteq> length tbl"
      using it by (auto simp: lua_gettable_beyond start_iteration_stops)
    with le start_iteration_Raise_count [OF it]
    show "fst (Some e1, m2, w2) \<noteq> None \<longrightarrow> count (fst (snd (Some e1, m2, w2))) < length tbl"
      by auto
  qed
  then show ?thesis by simp
qed

subsection \<open>The capacity of the array and the frame of a pass\<close>

lemma capacity_ok_double:
  assumes "capacity_ok c" and "c < 2 ^ 31"
  shows "(c * 2) mod 2 ^ 32 = c * 2" and "capacity_ok (c * 2)" and "c * 2 \<noteq> 0"
proof -
  from assms(1) obtain k where k: "k \<le> 28" "c = 8 * 2 ^ k"
    by (auto simp: capacity_ok_def)
  have "k \<noteq> 28"
    using assms(2) k(2) by auto
  with k(1) have k': "Suc k \<le> 28" by simp
  have "c * 2 = 8 * 2 ^ Suc k"
    using k(2) by simp
  with k' show "capacity_ok (c * 2)"
    unfolding capacity_ok_def by blast
  show "(c * 2) mod 2 ^ 32 = c * 2"
    using assms(2) by simp
  show "c * 2 \<noteq> 0"
    using k(2) by simp
qed

lemma capacity_ok_wrap:
  assumes "capacity_ok c" and "(c * 2) mod 2 ^ 32 \<noteq> 0"
  shows "c < 2 ^ 31"
proof -
  from assms(1) obtain k where k: "k \<le> 28" "c = 8 * 2 ^ k"
    by (auto simp: capacity_ok_def)
  have "k \<noteq> 28"
    using assms(2) k(2) by auto
  with k(1) have "k < 28" by simp
  then have "(2::nat) ^ k < 2 ^ 28"
    by (rule power_strict_increasing) simp
  with k(2) show ?thesis by simp
qed

lemma start_iteration_Advance_capacity:
  assumes "start_iteration tnew v m w = Advance m' w'"
    and "capacity_ok (capacity m)" and "count m \<le> capacity m"
  shows "capacity_ok (capacity m') \<and> count m' \<le> capacity m'"
proof (cases "count m = capacity m")
  case True
  from assms(1) True have nz: "(capacity m * 2) mod 2 ^ 32 \<noteq> 0"
    and c': "capacity m' = (capacity m * 2) mod 2 ^ 32"
    by (auto simp: start_iteration_def start_source_def Let_def
        split: if_splits prod.splits wrapper.splits option.splits)
  note lt = capacity_ok_wrap [OF assms(2) nz]
  note d = capacity_ok_double [OF assms(2) lt]
  from start_iteration_Advance_count [OF assms(1)] True c' d assms(2)
  show ?thesis by (auto simp: capacity_ok_def)
next
  case False
  from assms(1) False have "capacity m' = capacity m"
    by (auto simp: start_iteration_def start_source_def Let_def
        split: if_splits prod.splits wrapper.splits option.splits)
  with start_iteration_Advance_count [OF assms(1)] False assms(2,3)
  show ?thesis by simp
qed

text \<open>What a run of the loop that ends by \<^verbatim>\<open>break\<close> establishes.\<close>

lemma start_loop_Break_state:
  assumes run: "start_loop tnew tbl m w = Some (None, m1, w1)"
    and le: "count m \<le> length tbl"
    and cap: "capacity_ok (capacity m)" "count m \<le> capacity m"
    and nostop: "\<forall>v \<in> set tbl. \<not> stops_enumeration v"
  shows "count m1 = length tbl \<and> capacity_ok (capacity m1) \<and> count m1 \<le> capacity m1"
proof -
  have "fst (None :: error option, m1, w1) = None \<longrightarrow>
      count (fst (snd (None :: error option, m1, w1))) = length tbl \<and>
      capacity_ok (capacity (fst (snd (None :: error option, m1, w1)))) \<and>
      count (fst (snd (None :: error option, m1, w1)))
        \<le> capacity (fst (snd (None :: error option, m1, w1)))"
  proof (rule start_loop_rule [OF run, where I = "\<lambda>m w. count m \<le> length tbl \<and>
        capacity_ok (capacity m) \<and> count m \<le> capacity m"])
    show "count m \<le> length tbl \<and> capacity_ok (capacity m) \<and> count m \<le> capacity m"
      using le cap by simp
  next
    fix m1 w1 m2 w2
    assume i: "count m1 \<le> length tbl \<and> capacity_ok (capacity m1) \<and> count m1 \<le> capacity m1"
      and it: "start_iteration tnew (lua_gettable tbl (count m1 + 1)) m1 w1 = Advance m2 w2"
    have "count m1 \<noteq> length tbl"
      using it by (auto simp: lua_gettable_beyond start_iteration_stops)
    with i start_iteration_Advance_count [OF it] start_iteration_Advance_capacity [OF it]
    show "count m2 \<le> length tbl \<and> capacity_ok (capacity m2) \<and> count m2 \<le> capacity m2"
      by simp
  next
    fix m1 w1
    assume i: "count m1 \<le> length tbl \<and> capacity_ok (capacity m1) \<and> count m1 \<le> capacity m1"
      and it: "start_iteration tnew (lua_gettable tbl (count m1 + 1)) m1 w1 = Break"
    have "count m1 = length tbl"
    proof (rule ccontr)
      assume "count m1 \<noteq> length tbl"
      with i have "count m1 < length tbl" by simp
      then have "lua_gettable tbl (count m1 + 1) \<in> set tbl"
        by (simp add: lua_gettable_def)
      with nostop start_iteration_Break [OF it] show False by blast
    qed
    with i show "fst (None :: error option, m1, w1) = None \<longrightarrow>
      count (fst (snd (None :: error option, m1, w1))) = length tbl \<and>
      capacity_ok (capacity (fst (snd (None :: error option, m1, w1)))) \<and>
      count (fst (snd (None :: error option, m1, w1)))
        \<le> capacity (fst (snd (None :: error option, m1, w1)))"
      by simp
  next
    fix m1 w1 e1 m2 w2
    show "fst (Some e1, m2, w2) = None \<longrightarrow>
      count (fst (snd (Some e1, m2, w2))) = length tbl \<and>
      capacity_ok (capacity (fst (snd (Some e1, m2, w2)))) \<and>
      count (fst (snd (Some e1, m2, w2))) \<le> capacity (fst (snd (Some e1, m2, w2)))"
      by simp
  qed
  then show ?thesis by simp
qed

lemma lua_gettable_append:
  "lua_gettable pre k \<noteq> Lua_nil \<Longrightarrow> lua_gettable (pre @ rest) k = lua_gettable pre k"
  by (auto simp: lua_gettable_def nth_append split: if_splits)

lemma lua_gettable_append_next [simp]:
  "lua_gettable (pre @ v # post) (Suc (length pre)) = v"
  by (simp add: lua_gettable_def nth_append)

lemma lua_gettable_cases: "lua_gettable tbl k = Lua_nil \<or> lua_gettable tbl k \<in> set tbl"
proof (cases "1 \<le> k \<and> k \<le> length tbl")
  case True
  then have "k - 1 < length tbl" by arith
  then have "tbl ! (k - 1) \<in> set tbl" by (rule nth_mem)
  with True show ?thesis by (auto simp: lua_gettable_def)
next
  case False
  then show ?thesis by (auto simp: lua_gettable_def)
qed

text \<open>A run of the loop that ends by \<^verbatim>\<open>break\<close> is the beginning of the run on a longer table.\<close>

lemma start_loop_prefix:
  assumes run: "start_loop tnew pre m w = Some (None, m1, w1)"
  shows "start_loop tnew (pre @ rest) m w = start_loop tnew (pre @ rest) m1 w1"
proof -
  have "tnew = tnew \<longrightarrow> pre = pre \<longrightarrow> (None :: error option, m1, w1) = (None, m1, w1) \<longrightarrow>
      start_loop tnew (pre @ rest) m w = start_loop tnew (pre @ rest) m1 w1"
  proof (rule start_loop.raw_induct
      [where P = "\<lambda>tn tb m w r. tn = tnew \<longrightarrow> tb = pre \<longrightarrow> r = (None, m1, w1) \<longrightarrow>
         start_loop tnew (pre @ rest) m w = start_loop tnew (pre @ rest) m1 w1", OF _ run])
    fix f :: "('c \<Rightarrow> mp_token list \<Rightarrow> 'a option) \<Rightarrow> lua_value list \<Rightarrow> ('a, 'b, 'c) merger
        \<Rightarrow> 'a world \<Rightarrow> (error option \<times> ('a, 'b, 'c) merger \<times> 'a world) option"
    fix tn tb m w y
    assume IH: "\<And>tn tb m w y. f tn tb m w = Some y \<Longrightarrow>
        tn = tnew \<longrightarrow> tb = pre \<longrightarrow> y = (None, m1, w1) \<longrightarrow>
        start_loop tnew (pre @ rest) m w = start_loop tnew (pre @ rest) m1 w1"
    assume step: "(case start_iteration tn (lua_gettable tb (count m + 1)) m w of
          Break \<Rightarrow> Some (None, m, w)
        | Continue \<Rightarrow> f tn tb m w
        | Advance m' w' \<Rightarrow> f tn tb m' w'
        | Raise e m' w' \<Rightarrow> Some (Some e, m', w')) = Some y"
    show "tn = tnew \<longrightarrow> tb = pre \<longrightarrow> y = (None, m1, w1) \<longrightarrow>
        start_loop tnew (pre @ rest) m w = start_loop tnew (pre @ rest) m1 w1"
    proof (intro impI)
      assume eq: "tn = tnew" "tb = pre" and y: "y = (None, m1, w1)"
      show "start_loop tnew (pre @ rest) m w = start_loop tnew (pre @ rest) m1 w1"
      proof (cases "start_iteration tnew (lua_gettable pre (count m + 1)) m w")
        case Break
        with step eq y show ?thesis by simp
      next
        case Continue
        with step eq have "f tnew pre m w = Some y" by simp
        from IH [OF this] y show ?thesis by simp
      next
        case (Advance m' w')
        with step eq have "f tnew pre m' w' = Some y" by simp
        from IH [OF this] y
        have rec: "start_loop tnew (pre @ rest) m' w' = start_loop tnew (pre @ rest) m1 w1"
          by simp
        have "lua_gettable pre (count m + 1) \<noteq> Lua_nil"
          using Advance by (auto simp: start_iteration_def)
        from lua_gettable_append [OF this] Advance
        have "start_iteration tnew (lua_gettable (pre @ rest) (count m + 1)) m w = Advance m' w'"
          by simp
        then have "start_loop tnew (pre @ rest) m w = start_loop tnew (pre @ rest) m' w'"
          by (subst start_loop.simps) simp
        with rec show ?thesis by simp
      next
        case (Raise e m' w')
        with step eq y show ?thesis by simp
      qed
    qed
  qed
  then show ?thesis by simp
qed

text \<open>A buffer that is not in the table is not read.\<close>

lemma source_fetch_ibufs_frame:
  assumes "source_fetch tnew fmt s w = (e, s', w')"
    and "source_type s = SOURCE_TYPE_FUNCTION \<or> input s \<noteq> a"
  shows "ibufs w' a = ibufs w a"
  using assms
  by (auto simp: source_fetch_def Let_def box_tuple_ref_def
      split: if_splits list.splits call_result.splits option.splits prod.splits)

lemma start_iteration_ibufs_frame:
  assumes "start_iteration tnew v m w = Advance m' w'" and "v \<noteq> Lua_ibuf a"
  shows "ibufs w' a = ibufs w a"
proof (cases v)
  case (Lua_function f)
  with assms(1) obtain s' where
    "source_fetch tnew (format m) \<lparr>source_type = SOURCE_TYPE_FUNCTION, input = f, tuple = None\<rparr> w
       = (None, s', w')"
    by (auto simp: start_iteration_def start_source_def Let_def
        split: if_splits prod.splits option.splits)
  from source_fetch_ibufs_frame [OF this] show ?thesis by simp
next
  case (Lua_ibuf b)
  with assms(2) have ne: "b \<noteq> a" by simp
  from assms(1) Lua_ibuf obtain s' rest where
    "source_fetch tnew (format m) \<lparr>source_type = SOURCE_TYPE_BUFFER, input = b, tuple = None\<rparr>
       (w\<lparr>ibufs := (ibufs w)(b := rest)\<rparr>) = (None, s', w')"
    by (auto simp: start_iteration_def start_source_def Let_def
        split: if_splits prod.splits option.splits wrapper.splits)
  from source_fetch_ibufs_frame [OF this, of a] ne show ?thesis by simp
qed (use assms in \<open>simp_all add: start_iteration_def\<close>)

lemma start_loop_ibufs_frame:
  assumes run: "start_loop tnew tbl m w = Some (None, m1, w1)"
    and notin: "Lua_ibuf a \<notin> set tbl"
  shows "ibufs w1 a = ibufs w a"
proof -
  have "fst (None :: error option, m1, w1) = None \<longrightarrow>
      ibufs (snd (snd (None :: error option, m1, w1))) a = ibufs w a"
  proof (rule start_loop_rule [OF run, where I = "\<lambda>m' w'. ibufs w' a = ibufs w a"])
    show "ibufs w a = ibufs w a" by simp
  next
    fix m2 w2 m3 w3
    assume i: "ibufs w2 a = ibufs w a"
      and it: "start_iteration tnew (lua_gettable tbl (count m2 + 1)) m2 w2 = Advance m3 w3"
    have "lua_gettable tbl (count m2 + 1) \<noteq> Lua_ibuf a"
      using notin lua_gettable_cases [of tbl "count m2 + 1"] by auto
    from start_iteration_ibufs_frame [OF it this] i show "ibufs w3 a = ibufs w a" by simp
  next
    fix m2 w2
    assume "ibufs w2 a = ibufs w a"
    then show "fst (None :: error option, m2, w2) = None \<longrightarrow>
      ibufs (snd (snd (None :: error option, m2, w2))) a = ibufs w a"
      by simp
  next
    fix m2 w2 e2 m3 w3
    show "fst (Some e2, m3, w3) = None \<longrightarrow> ibufs (snd (snd (Some e2, m3, w3))) a = ibufs w a"
      by simp
  qed
  then show ?thesis by simp
qed



subsection \<open>The end of the enumeration\<close>








subsection \<open>A buffer whose wrapper deviates\<close>

lemma decode_wrapper_invalid:
  "wrapper_deviates b = (fst (decode_wrapper b) = Wrapper_invalid)"
proof (cases b)
  case Nil
  then show ?thesis by (simp add: decode_wrapper_def)
next
  case (Cons t1 b1)
  show ?thesis
  proof (cases t1)
    case (Tok_map n)
    show ?thesis
    proof (cases b1)
      case Nil
      with Cons Tok_map show ?thesis by (simp add: decode_wrapper_def)
    next
      case c2: (Cons t2 b2)
      show ?thesis
      proof (cases t2)
        case (Tok_uint k)
        with Cons Tok_map c2 show ?thesis
          by (cases b2) (simp_all add: decode_wrapper_def)
      qed (use Cons Tok_map c2 in \<open>simp_all add: decode_wrapper_def\<close>)
    qed
  qed (use Cons in \<open>simp_all add: decode_wrapper_def\<close>)
qed

lemma wrapper_deviates_nonempty: "wrapper_deviates b \<Longrightarrow> b \<noteq> []"
  by auto

text \<open>
  The pass through the loop body for a buffer whose wrapper deviates: \<^verbatim>\<open>free_sources\<close>
  frees the array, which \<^verbatim>\<open>merger->sources\<close> goes on pointing to.
\<close>

lemma start_iteration_deviates:
  assumes dev: "wrapper_deviates (ibufs w a)"
    and nowrap: "\<not> (count m = capacity m \<and> (capacity m * 2) mod 2 ^ 32 = 0)"
    and live: "sources_block m = Block_live"
  shows "\<exists>m' w'. start_iteration tnew (Lua_ibuf a) m w = Raise Invalid_merge_source m' w' \<and>
           count m' = 0 \<and> sources m' = [] \<and> heap m' = [] \<and>
           sources_block m' = Block_freed \<and>
           key_def m' = key_def m \<and> format m' = format m"
proof -
  obtain rest where d: "decode_wrapper (ibufs w a) = (Wrapper_invalid, rest)"
    using dev decode_wrapper_invalid [of "ibufs w a"]
    by (cases "decode_wrapper (ibufs w a)") simp
  have ne: "ibufs w a \<noteq> []"
    using dev by (rule wrapper_deviates_nonempty)
  show ?thesis
    using d ne nowrap live
    by (auto simp: start_iteration_def start_source_def Let_def ibuf_used_def free_sources_def
        merger_heap_create_def)
qed

text \<open>The array stays allocated while the loop accepts sources.\<close>

lemma start_iteration_Advance_block:
  assumes "start_iteration tnew v m w = Advance m' w'"
  shows "sources_block m' = sources_block m"
  using assms
  by (auto simp: start_iteration_def start_source_def Let_def
      split: if_splits option.splits prod.splits wrapper.splits)

lemma start_loop_Break_block:
  assumes run: "start_loop tnew tbl m w = Some (None, m1, w1)"
  shows "sources_block m1 = sources_block m"
proof -
  have "fst (None :: error option, m1, w1) = None \<longrightarrow>
      sources_block (fst (snd (None :: error option, m1, w1))) = sources_block m"
  proof (rule start_loop_rule [OF run, where I = "\<lambda>m' w'. sources_block m' = sources_block m"])
    show "sources_block m = sources_block m" by simp
  next
    fix m2 w2 m3 w3
    assume "sources_block m2 = sources_block m"
      and "start_iteration tnew (lua_gettable tbl (count m2 + 1)) m2 w2 = Advance m3 w3"
    then show "sources_block m3 = sources_block m"
      using start_iteration_Advance_block [of tnew _ m2 w2 m3 w3] by simp
  next
    fix m2 w2
    assume "sources_block m2 = sources_block m"
    then show "fst (None :: error option, m2, w2) = None \<longrightarrow>
      sources_block (fst (snd (None :: error option, m2, w2))) = sources_block m"
      by simp
  next
    fix m2 w2 e2 m3 w3
    show "fst (Some e2, m3, w3) = None \<longrightarrow>
      sources_block (fst (snd (Some e2, m3, w3))) = sources_block m"
      by simp
  qed
  then show ?thesis by simp
qed

text \<open>
  Claim C6. Let the sources before a buffer be read without error, fewer than \<open>2^31\<close> of
  them and none of them that buffer. If the unread region of the buffer deviates from a
  one-entry map with key \<open>DATA\<close> and an array value (the outer value is not a map, the map
  has not one entry, the key is not \<open>DATA\<close>, the value is not an array), \<open>start\<close> raises
  "Invalid merge source", an error of kind \<open>InvalidSource\<close>. The merger is left without
  sources and with an empty heap, and \<open>next\<close> returns the end of the stream. But
  \<^verbatim>\<open>free_sources\<close> has freed the array and \<^verbatim>\<open>merger->sources\<close> still points to it: every later
  \<open>start\<close> on this merger frees the array a second time, where \<open>start\<close> on the merger that
  \<open>new\<close> returned succeeds.
\<close>

theorem start_invalid_source:
  assumes pre: "lbox_merger_start tnew m w pre ord = Some (None, m1, w1)"
    and nostop: "\<forall>v \<in> set pre. \<not> stops_enumeration v"
    and len: "length pre < 2 ^ 31"
    and notin: "Lua_ibuf a \<notin> set pre"
    and dev: "wrapper_deviates (ibufs w a)"
  shows "\<exists>m' w'.
           lbox_merger_start tnew m w (pre @ Lua_ibuf a # post) ord =
             Some (Some Invalid_merge_source, m', w') \<and>
           kind_of Invalid_merge_source = Some InvalidSource \<and>
           count m' = 0 \<and> sources m' = [] \<and> heap m' = [] \<and>
           lbox_merger_next cmp tnew m' w' = (Inr None, m', w') \<and>
           sources_block m' = Block_freed \<and>
           (\<forall>tbl2 ord2. \<exists>m2 w2. lbox_merger_start tnew m' w' tbl2 ord2 =
              Some (Some Undefined_behaviour, m2, w2)) \<and>
           (\<forall>ord2. \<exists>m2 w2.
              lbox_merger_start tnew (fresh_merger (key_def m) (format m)) w' [] ord2 =
                Some (None, m2, w2))"
proof -
  let ?m0 = "m\<lparr>order := order_of ord, count := 0, sources := [], sources_block := Block_live,
               capacity := 8, heap := []\<rparr>"
  let ?w0 = "unref_sources (take (count m) (sources m)) w"
  let ?tbl = "pre @ Lua_ibuf a # post"
  have nf: "sources_block m \<noteq> Block_freed"
    using pre by (auto simp: lbox_merger_start_cases)
  with pre have run: "start_loop tnew pre ?m0 ?w0 = Some (None, m1, w1)"
    by (simp add: lbox_merger_start_cases)
  have c0: "capacity_ok (capacity ?m0)"
    unfolding capacity_ok_def by (rule exI [of _ 0]) simp
  from start_loop_Break_state [OF run _ c0 _ nostop]
  have st: "count m1 = length pre" "capacity_ok (capacity m1)" "count m1 \<le> capacity m1"
    by simp_all
  have live: "sources_block m1 = Block_live"
    using start_loop_Break_block [OF run] by simp
  have nowrap: "\<not> (count m1 = capacity m1 \<and> (capacity m1 * 2) mod 2 ^ 32 = 0)"
  proof
    assume a: "count m1 = capacity m1 \<and> (capacity m1 * 2) mod 2 ^ 32 = 0"
    with st(1) len have "capacity m1 < 2 ^ 31" by simp
    from capacity_ok_double [OF st(2) this] a show False by simp
  qed
  have "ibufs w1 a = ibufs ?w0 a"
    using run notin by (rule start_loop_ibufs_frame)
  with dev have dev1: "wrapper_deviates (ibufs w1 a)" by simp
  from start_iteration_deviates [OF dev1 nowrap live, of tnew] obtain m' w' where
    it: "start_iteration tnew (Lua_ibuf a) m1 w1 = Raise Invalid_merge_source m' w'"
    and e: "count m' = 0" "sources m' = []" "heap m' = []"
    and fr: "sources_block m' = Block_freed"
    by blast
  have "start_loop tnew ?tbl ?m0 ?w0 = start_loop tnew ?tbl m1 w1"
    using run by (rule start_loop_prefix)
  also have "\<dots> = Some (Some Invalid_merge_source, m', w')"
    using it st(1) by (subst start_loop.simps) simp
  finally have res: "lbox_merger_start tnew m w ?tbl ord = Some (Some Invalid_merge_source, m', w')"
    using nf by (simp add: lbox_merger_start_cases)
  have nx: "lbox_merger_next cmp tnew m' w' = (Inr None, m', w')"
    using e(3) by (simp add: lbox_merger_next_def merger_heap_top_def)
  have again: "\<exists>m2 w2. lbox_merger_start tnew m' w' tbl2 ord2 =
      Some (Some Undefined_behaviour, m2, w2)" for tbl2 ord2
    using fr by (simp add: lbox_merger_start_cases)
  have fresh: "\<exists>m2 w2. lbox_merger_start tnew (fresh_merger (key_def m) (format m)) w' [] ord2 =
      Some (None, m2, w2)" for ord2
    by (simp add: lbox_merger_start_cases fresh_merger_def start_loop.simps
        start_iteration_def lua_gettable_def)
  show ?thesis
    by (rule exI [of _ m'], rule exI [of _ w'], intro conjI allI res e nx fr again fresh) simp
qed

theorem start_invalid_source_witness:
  "(\<exists>m1 w1. lbox_merger_start example_box_tuple_new example_merger example_world [Lua_ibuf 2] 1
       = Some (None, m1, w1)) \<and>
   \<not> stops_enumeration (Lua_ibuf 2) \<and>
   length [Lua_ibuf 2] < 2 ^ 31 \<and>
   Lua_ibuf 4 \<notin> set [Lua_ibuf 2] \<and>
   wrapper_deviates (ibufs example_world 4) \<and>
   (\<exists>m' w'.
      lbox_merger_start example_box_tuple_new example_merger example_world
          ([Lua_ibuf 2] @ Lua_ibuf 4 # []) 1 = Some (Some Invalid_merge_source, m', w') \<and>
      count m' = 0 \<and> sources m' = [] \<and> heap m' = [] \<and>
      lbox_merger_next example_box_tuple_compare example_box_tuple_new m' w' = (Inr None, m', w') \<and>
      sources_block m' = Block_freed \<and>
      (\<exists>m2 w2. lbox_merger_start example_box_tuple_new m' w' [Lua_ibuf 3] 1 =
         Some (Some Undefined_behaviour, m2, w2)) \<and>
      (\<exists>m2 w2. lbox_merger_start example_box_tuple_new
          (fresh_merger (key_def example_merger) (format example_merger)) w' [Lua_ibuf 3] 1
            = Some (None, m2, w2) \<and>
         heap m2 = [0] \<and> tuple_refs w2 = {#example_tuple 2#}))"
proof -
  have st: "\<exists>m1 w1. lbox_merger_start example_box_tuple_new example_merger example_world
      [Lua_ibuf 2] 1 = Some (None, m1, w1)"
    by (simp add: model_defs example_defs start_loop.simps)
  then obtain m1 w1 where pre: "lbox_merger_start example_box_tuple_new example_merger
      example_world [Lua_ibuf 2] 1 = Some (None, m1, w1)"
    by blast
  have ns: "\<not> stops_enumeration (Lua_ibuf 2)"
    by (simp add: stops_enumeration_def)
  have ns': "\<forall>v \<in> set [Lua_ibuf 2]. \<not> stops_enumeration v"
    using ns by simp
  have len: "length [Lua_ibuf 2] < 2 ^ 31"
    by simp
  have notin: "Lua_ibuf 4 \<notin> set [Lua_ibuf 2]"
    by simp
  have dev: "wrapper_deviates (ibufs example_world 4)"
    by (simp add: example_world_def)
  from start_invalid_source [OF pre ns' len notin dev, of "[]" example_box_tuple_compare]
  obtain m' w' where
    res: "lbox_merger_start example_box_tuple_new example_merger example_world
          ([Lua_ibuf 2] @ Lua_ibuf 4 # []) 1 = Some (Some Invalid_merge_source, m', w')"
    and e: "count m' = 0" "sources m' = []" "heap m' = []"
    and nx: "lbox_merger_next example_box_tuple_compare example_box_tuple_new m' w'
        = (Inr None, m', w')"
    and fr: "sources_block m' = Block_freed"
    and again: "\<forall>tbl2 ord2. \<exists>m2 w2. lbox_merger_start example_box_tuple_new m' w' tbl2 ord2 =
        Some (Some Undefined_behaviour, m2, w2)"
    by blast
  have ev: "\<exists>m' w'. lbox_merger_start example_box_tuple_new example_merger example_world
          ([Lua_ibuf 2] @ Lua_ibuf 4 # []) 1 = Some (Some Invalid_merge_source, m', w') \<and>
       (\<exists>m2 w2. lbox_merger_start example_box_tuple_new
          (fresh_merger (key_def example_merger) (format example_merger)) w' [Lua_ibuf 3] 1
            = Some (None, m2, w2) \<and>
         heap m2 = [0] \<and> tuple_refs w2 = {#example_tuple 2#})"
    by (simp add: model_defs example_defs start_loop.simps fresh_merger_def)
  with res have sub: "\<exists>m2 w2. lbox_merger_start example_box_tuple_new
          (fresh_merger (key_def example_merger) (format example_merger)) w' [Lua_ibuf 3] 1
            = Some (None, m2, w2) \<and>
         heap m2 = [0] \<and> tuple_refs w2 = {#example_tuple 2#}"
    by auto
  have ag: "\<exists>m2 w2. lbox_merger_start example_box_tuple_new m' w' [Lua_ibuf 3] 1 =
         Some (Some Undefined_behaviour, m2, w2)"
    using again by simp
  show ?thesis
    by (intro conjI st ns len notin dev, rule exI [of _ m'], rule exI [of _ w'],
        intro conjI res e nx fr ag sub)
qed

subsection \<open>Tuple references\<close>

lemma heads_simps [simp]:
  "heads [] = {#}"
  "heads (s # ss) = head_refs s + heads ss"
  "heads (ss @ ts) = heads ss + heads ts"
  by (simp_all add: heads_def)

lemma heads_update:
  "c < length ss \<Longrightarrow> heads (ss[c := s']) + head_refs (ss ! c) = heads ss + head_refs s'"
proof (induction ss arbitrary: c)
  case Nil
  then show ?case by simp
next
  case (Cons s ss)
  then show ?case by (cases c) (simp_all add: ac_simps)
qed

lemma head_refs_le_heads: "c < length ss \<Longrightarrow> head_refs (ss ! c) \<subseteq># heads ss"
proof (induction ss arbitrary: c)
  case Nil
  then show ?case by simp
next
  case (Cons s ss)
  show ?case
  proof (cases c)
    case 0
    then show ?thesis by simp
  next
    case (Suc k)
    with Cons.prems have "k < length ss" by simp
    from Cons.IH [OF this] Suc show ?thesis
      by (simp add: subset_mset.add_increasing)
  qed
qed

lemma source_fetch_refs:
  assumes "source_fetch tnew fmt s w = (e, s', w')"
  shows "tuple_refs w' = tuple_refs w + head_refs s'"
  using assms
  by (auto simp: source_fetch_def Let_def box_tuple_ref_def head_refs_def
      split: if_splits list.splits call_result.splits option.splits prod.splits)

lemma source_fetch_error:
  assumes "source_fetch tnew fmt s w = (Some e, s', w')"
  shows "tuple s' = None"
  using assms
  by (auto simp: source_fetch_def Let_def
      split: if_splits list.splits call_result.splits option.splits prod.splits)

lemma unref_sources_refs:
  "tuple_refs (unref_sources ss w) = tuple_refs w - heads ss"
proof (induction ss arbitrary: w)
  case Nil
  then show ?case by simp
next
  case (Cons s ss)
  then show ?case
    by (cases "tuple s") (simp_all add: box_tuple_unref_def head_refs_def)
qed

lemma free_sources_refs_ok:
  assumes "refs_ok m w" and "tuple_refs w' = tuple_refs w" and "sources_block m \<noteq> Block_freed"
  shows "fst (free_sources m w') = None \<and>
         refs_ok (fst (snd (free_sources m w'))) (snd (snd (free_sources m w')))"
  using assms
  by (simp add: refs_ok_def free_sources_live unref_sources_refs)

lemma refs_ok_fields:
  assumes "refs_ok m w"
    and "sources m' = sources m" and "count m' = count m" and "heap m' = heap m"
    and "tuple_refs w' = tuple_refs w"
  shows "refs_ok m' w'"
  using assms by (simp add: refs_ok_def)

lemma start_source_refs_ok:
  assumes ok: "refs_ok m w"
    and live: "sources_block m = Block_live"
    and it: "start_source tnew stype inp m w = r"
  shows "case r of Advance m' w' \<Rightarrow> refs_ok m' w' | Raise e m' w' \<Rightarrow> refs_ok m' w' | _ \<Rightarrow> True"
proof -
  define mg where "mg = (if count m = capacity m
             then m\<lparr>capacity := (capacity m * 2) mod 2 ^ 32\<rparr> else m)"
  have mg: "refs_ok mg w"
    using ok by (rule refs_ok_fields) (simp_all add: mg_def)
  define wr where "wr = (if stype = SOURCE_TYPE_FUNCTION then (Wrapper_ok, ibufs w inp)
               else decode_wrapper (ibufs w inp))"
  define w1 where "w1 = w\<lparr>ibufs := (ibufs w)(inp := snd wr)\<rparr>"
  have w1: "refs_ok mg w1"
    using mg by (rule refs_ok_fields) (simp_all add: w1_def)
  show ?thesis
  proof (cases "count m = capacity m \<and> capacity mg = 0")
    case True
    with it mg show ?thesis
      by (auto simp: start_source_def Let_def mg_def)
  next
    case False
    show ?thesis
    proof (cases "fst wr")
      case Wrapper_invalid
      have lv: "sources_block mg \<noteq> Block_freed"
        using live by (simp add: mg_def)
      from free_sources_refs_ok [OF w1 refl lv]
      have fs: "fst (free_sources mg w1) = None"
        and fr: "refs_ok (fst (snd (free_sources mg w1))) (snd (snd (free_sources mg w1)))"
        by simp_all
      from fs obtain m2 w2 where f2: "free_sources mg w1 = (None, m2, w2)"
        by (cases "free_sources mg w1") auto
      with Wrapper_invalid have "r = Raise Invalid_merge_source m2 w2"
        using it False
        by (cases wr) (auto simp: start_source_def Let_def mg_def wr_def w1_def)
      with fr f2 show ?thesis by simp
    next
      case Wrapper_overread
      then have "r = Raise Undefined_behaviour mg w1"
        using it False
        by (cases wr) (auto simp: start_source_def Let_def mg_def wr_def w1_def split_beta)
      with w1 show ?thesis by simp
    next
      case Wrapper_ok
      define w2 where "w2 = (if stype = SOURCE_TYPE_FUNCTION then w else w1)"
      have w2: "refs_ok mg w2"
        using mg w1 by (simp add: w2_def)
      obtain e s' w' where f: "source_fetch tnew (format mg)
          \<lparr>source_type = stype, input = inp, tuple = None\<rparr> w2 = (e, s', w')"
        by (cases "source_fetch tnew (format mg)
          \<lparr>source_type = stype, input = inp, tuple = None\<rparr> w2") auto
      note refs = source_fetch_refs [OF f]
      show ?thesis
      proof (cases e)
        case (Some x)
        with Wrapper_ok it False f have "r = Raise x mg w'"
          by (cases wr) (auto simp: start_source_def Let_def mg_def wr_def w1_def w2_def)
        moreover have "refs_ok mg w'"
          using w2 refs source_fetch_error [of tnew "format mg" _ w2 x s' w'] f Some
          by (simp add: refs_ok_def head_refs_def)
        ultimately show ?thesis by simp
      next
        case None
        with Wrapper_ok it False f have "r = Advance
            (mg\<lparr>heap := (if tuple s' \<noteq> None then merger_heap_insert (heap mg) (count mg)
                          else heap mg),
                sources := take (count mg) (sources mg) @ [s'],
                count := count mg + 1\<rparr>) w'"
          by (cases wr) (auto simp: start_source_def Let_def mg_def wr_def w1_def w2_def)
        moreover have "refs_ok
            (mg\<lparr>heap := (if tuple s' \<noteq> None then merger_heap_insert (heap mg) (count mg)
                          else heap mg),
                sources := take (count mg) (sources mg) @ [s'],
                count := count mg + 1\<rparr>) w'"
          using w2 refs
          by (auto simp: refs_ok_def merger_heap_insert_def less_Suc_eq)
        ultimately show ?thesis by simp
      qed
    qed
  qed
qed

lemma start_iteration_refs_ok:
  assumes ok: "refs_ok m w" and live: "sources_block m = Block_live"
  shows "case start_iteration tnew v m w of
           Advance m' w' \<Rightarrow> refs_ok m' w' | Raise e m' w' \<Rightarrow> refs_ok m' w' | _ \<Rightarrow> True"
  using start_source_refs_ok [OF ok live refl, of tnew]
  by (simp add: start_iteration_def split: option.splits)

lemma start_loop_refs_ok:
  assumes run: "start_loop tnew tbl m w = Some (e, m', w')" and ok: "refs_ok m w"
    and live: "sources_block m = Block_live"
  shows "refs_ok m' w'"
proof -
  have "refs_ok (fst (snd (e, m', w'))) (snd (snd (e, m', w')))"
  proof (rule start_loop_rule [OF run,
        where I = "\<lambda>m w. refs_ok m w \<and> sources_block m = Block_live"])
    show "refs_ok m w \<and> sources_block m = Block_live" using ok live by simp
  next
    fix m1 w1 m2 w2
    assume i: "refs_ok m1 w1 \<and> sources_block m1 = Block_live"
      and it: "start_iteration tnew (lua_gettable tbl (count m1 + 1)) m1 w1 = Advance m2 w2"
    from i start_iteration_refs_ok [of m1 w1 tnew "lua_gettable tbl (count m1 + 1)"] it
    have "refs_ok m2 w2" by simp
    with i start_iteration_Advance_block [OF it]
    show "refs_ok m2 w2 \<and> sources_block m2 = Block_live" by simp
  next
    fix m1 w1
    assume "refs_ok m1 w1 \<and> sources_block m1 = Block_live"
    then show "refs_ok (fst (snd (None :: error option, m1, w1)))
        (snd (snd (None :: error option, m1, w1)))"
      by simp
  next
    fix m1 w1 e1 m2 w2
    assume i: "refs_ok m1 w1 \<and> sources_block m1 = Block_live"
      and it: "start_iteration tnew (lua_gettable tbl (count m1 + 1)) m1 w1 = Raise e1 m2 w2"
    with start_iteration_refs_ok [of m1 w1 tnew "lua_gettable tbl (count m1 + 1)"]
    show "refs_ok (fst (snd (Some e1, m2, w2))) (snd (snd (Some e1, m2, w2)))" by simp
  qed
  then show ?thesis by simp
qed

lemma lbox_merger_start_refs_ok:
  assumes "lbox_merger_start tnew m w tbl ord = Some (e, m', w')" and "refs_ok m w"
    and "sources_block m \<noteq> Block_freed"
  shows "refs_ok m' w'"
proof -
  let ?m0 = "m\<lparr>order := order_of ord, count := 0, sources := [], sources_block := Block_live,
               capacity := 8, heap := []\<rparr>"
  let ?w0 = "unref_sources (take (count m) (sources m)) w"
  have "refs_ok ?m0 ?w0"
    using assms(2) by (simp add: refs_ok_def unref_sources_refs)
  moreover from assms(1,3) have "start_loop tnew tbl ?m0 ?w0 = Some (e, m', w')"
    by (simp add: lbox_merger_start_cases)
  ultimately show ?thesis
    using start_loop_refs_ok [of tnew tbl ?m0 ?w0 e m' w'] by simp
qed

lemma merger_heap_top_mem:
  "merger_heap_top lt h = Some c \<Longrightarrow> c \<in> set h"
  using heap_least_mem [of lt "hd h" "tl h"]
  by (cases h) (auto simp: merger_heap_top_def)

text \<open>
  One call of \<open>next\<close>: which reference is given up. Either none is and nothing is returned,
  or the reference to the head of a cursor is given up and that head is returned, or it
  is given up and an error is raised.
\<close>

lemma lbox_merger_next_refs:
  assumes ok: "refs_ok m w"
    and nx: "lbox_merger_next cmp tnew m w = (r, m', w')"
  shows "refs_ok m' w' \<and>
         (\<forall>t. r = Inr (Some t) \<longrightarrow>
            (\<exists>c < count m. tuple (sources m ! c) = Some t \<and> t \<in># tuple_refs w \<and>
               tuple_refs w' = tuple_refs w - {#t#} + head_refs (sources m' ! c))) \<and>
         ((tuple_refs w' = tuple_refs w \<and> (r = Inr None \<or> r = Inl Undefined_behaviour)) \<or>
          (\<exists>c < count m. \<exists>t. tuple (sources m ! c) = Some t \<and> t \<in># tuple_refs w \<and>
             r = Inr (Some t) \<and>
             tuple_refs w' = tuple_refs w - {#t#} + head_refs (sources m' ! c)) \<or>
          (\<exists>c < count m. \<exists>t e. tuple (sources m ! c) = Some t \<and> t \<in># tuple_refs w \<and>
             r = Inl e \<and> tuple (sources m' ! c) = None \<and>
             tuple_refs w' = tuple_refs w - {#t#}))"
proof (cases "merger_heap_top (node_less cmp m) (heap m)")
  case None
  with nx ok show ?thesis by (auto simp: lbox_merger_next_def)
next
  case (Some c)
  from merger_heap_top_mem [OF Some] ok have c: "c < count m" "c < length (sources m)"
    by (simp_all add: refs_ok_def)
  show ?thesis
  proof (cases "tuple (sources m ! c)")
    case None
    with nx ok Some show ?thesis by (auto simp: lbox_merger_next_def)
  next
    case t: (Some t)
    obtain e s' w1 where f: "source_fetch tnew (format m) (sources m ! c)
        (box_tuple_unref t w) = (e, s', w1)"
      by (cases "source_fetch tnew (format m) (sources m ! c) (box_tuple_unref t w)") auto
    have hr: "head_refs (sources m ! c) = {#t#}"
      using t by (simp add: head_refs_def)
    from heads_update [OF c(2), of s'] hr
    have hu: "heads ((sources m)[c := s']) + {#t#} = heads (sources m) + head_refs s'"
      by simp
    have memh: "t \<in># heads (sources m)"
      using head_refs_le_heads [OF c(2)] hr by (simp add: mset_subset_eq_insertD)
    then have mem: "t \<in># tuple_refs w"
      using ok by (simp add: refs_ok_def)
    have refs1: "tuple_refs w1 = tuple_refs w - {#t#} + head_refs s'"
      using source_fetch_refs [OF f] by (simp add: box_tuple_unref_def)
    have "heads ((sources m)[c := s']) = heads ((sources m)[c := s']) + {#t#} - {#t#}"
      by simp
    also have "\<dots> = head_refs s' + heads (sources m) - {#t#}"
      using hu by (simp add: ac_simps)
    also have "\<dots> = head_refs s' + (heads (sources m) - {#t#})"
      using memh by (rule diff_union_single_conv)
    finally have "heads ((sources m)[c := s']) = heads (sources m) - {#t#} + head_refs s'"
      by (simp add: ac_simps)
    with refs1 ok
    have new: "tuple_refs w1 = heads ((sources m)[c := s'])"
      by (simp add: refs_ok_def)
    show ?thesis
    proof (cases e)
      case (Some x)
      with nx \<open>merger_heap_top (node_less cmp m) (heap m) = Some c\<close> t f
      have r: "r = Inl x" and m': "m' = m\<lparr>sources := (sources m)[c := s']\<rparr>" and w': "w' = w1"
        by (simp_all add: lbox_merger_next_def)
      from source_fetch_error [of tnew "format m" _ _ x s' w1] f Some
      have none: "tuple s' = None" by simp
      have ok': "refs_ok m' w'"
        using new ok by (simp add: refs_ok_def m' w')
      have "tuple (sources m' ! c) = None" "tuple_refs w' = tuple_refs w - {#t#}"
        using refs1 none c(2) by (simp_all add: m' w' head_refs_def)
      with ok' r c(1) t mem show ?thesis by auto
    next
      case None
      with nx \<open>merger_heap_top (node_less cmp m) (heap m) = Some c\<close> t f
      have r: "r = Inr (Some t)" and w': "w' = w1"
        and m': "m' = m\<lparr>sources := (sources m)[c := s'],
            heap := (if tuple s' = None then merger_heap_delete (heap m) c
                     else merger_heap_update (heap m) c)\<rparr>"
        by (simp_all add: lbox_merger_next_def)
      have ok': "refs_ok m' w'"
        using new ok
        by (auto simp: refs_ok_def m' w' merger_heap_delete_def merger_heap_update_def)
      have "tuple_refs w' = tuple_refs w - {#t#} + head_refs (sources m' ! c)"
        using refs1 c(2) by (simp add: m' w')
      with ok' r c(1) t mem show ?thesis by auto
    qed
  qed
qed

lemma merge_run_refs_ok:
  "merge_run cmp tnew n m w = (out, r, m', w') \<Longrightarrow> refs_ok m w \<Longrightarrow> refs_ok m' w'"
proof (induction n arbitrary: m w out r m' w')
  case 0
  then show ?case by simp
next
  case (Suc n)
  obtain x m1 w1 where nx: "lbox_merger_next cmp tnew m w = (x, m1, w1)"
    by (cases "lbox_merger_next cmp tnew m w") auto
  from lbox_merger_next_refs [OF Suc.prems(2) nx] have ok1: "refs_ok m1 w1" by simp
  show ?case
  proof (cases x)
    case (Inl e)
    with Suc.prems nx ok1 show ?thesis by simp
  next
    case (Inr v)
    show ?thesis
    proof (cases v)
      case None
      with Suc.prems nx ok1 Inr show ?thesis by simp
    next
      case (Some t)
      obtain ts r1 m2 w2 where rn: "merge_run cmp tnew n m1 w1 = (ts, r1, m2, w2)"
        by (cases "merge_run cmp tnew n m1 w1") auto
      with Suc.prems nx Inr Some have "m' = m2" "w' = w2" by simp_all
      with Suc.IH [OF rn ok1] show ?thesis by simp
    qed
  qed
qed

lemma size_heads: "size (heads ss) = length (filter (\<lambda>s. tuple s \<noteq> None) ss)"
  by (induction ss) (auto simp: head_refs_def split: option.splits)


text \<open>
  Claim C7. Let the merger hold one reference for each head when \<open>start\<close> is called, and
  let its array not be freed. Then after \<open>start\<close> and after any number of calls of \<open>next\<close>,
  whatever their outcome, the references the merger holds are exactly the heads of its
  cursors, one for each cursor with a head and none for a cursor without; their number is
  the number of cursors that are not drained. A call of \<open>next\<close> that returns a tuple gives
  up the reference to that tuple, the head of a cursor, and holds instead the reference
  to the new head of that cursor, if any. A call of \<open>next\<close> gives up a reference in two
  cases only: it returns the tuple, or the fetch that follows raises an error, and then
  the reference to the head is given up and the head is not returned.
\<close>

theorem merger_holds_one_reference_per_head:
  assumes "refs_ok m w"
    and "sources_block m \<noteq> Block_freed"
    and "lbox_merger_start tnew m w tbl ord = Some (e, m1, w1)"
    and "merge_run cmp tnew n m1 w1 = (out, r, m2, w2)"
  shows "tuple_refs w2 = heads (sources m2) \<and>
         size (tuple_refs w2) = length (filter (\<lambda>s. tuple s \<noteq> None) (sources m2)) \<and>
         (\<forall>t m3 w3. lbox_merger_next cmp tnew m2 w2 = (Inr (Some t), m3, w3) \<longrightarrow>
            (\<exists>c < count m2. tuple (sources m2 ! c) = Some t \<and> t \<in># tuple_refs w2 \<and>
               tuple_refs w3 = tuple_refs w2 - {#t#} + head_refs (sources m3 ! c))) \<and>
         (\<forall>x m3 w3. lbox_merger_next cmp tnew m2 w2 = (x, m3, w3) \<longrightarrow>
            tuple_refs w3 = heads (sources m3) \<and>
            ((tuple_refs w3 = tuple_refs w2 \<and> (x = Inr None \<or> x = Inl Undefined_behaviour)) \<or>
             (\<exists>c < count m2. \<exists>t. tuple (sources m2 ! c) = Some t \<and> t \<in># tuple_refs w2 \<and>
                x = Inr (Some t) \<and>
                tuple_refs w3 = tuple_refs w2 - {#t#} + head_refs (sources m3 ! c)) \<or>
             (\<exists>c < count m2. \<exists>t e. tuple (sources m2 ! c) = Some t \<and> t \<in># tuple_refs w2 \<and>
                x = Inl e \<and> tuple (sources m3 ! c) = None \<and>
                tuple_refs w3 = tuple_refs w2 - {#t#})))"
proof -
  have ok1: "refs_ok m1 w1"
    using assms(3,1,2) by (rule lbox_merger_start_refs_ok)
  have ok2: "refs_ok m2 w2"
    using assms(4) ok1 by (rule merge_run_refs_ok)
  have a: "tuple_refs w2 = heads (sources m2)"
    using ok2 by (simp add: refs_ok_def)
  have b: "size (tuple_refs w2) = length (filter (\<lambda>s. tuple s \<noteq> None) (sources m2))"
    unfolding a by (rule size_heads)
  have c: "\<exists>c < count m2. tuple (sources m2 ! c) = Some t \<and> t \<in># tuple_refs w2 \<and>
               tuple_refs w3 = tuple_refs w2 - {#t#} + head_refs (sources m3 ! c)"
    if "lbox_merger_next cmp tnew m2 w2 = (Inr (Some t), m3, w3)" for t m3 w3
    using lbox_merger_next_refs [OF ok2 that] by simp
  have d1: "tuple_refs w3 = heads (sources m3)"
    if "lbox_merger_next cmp tnew m2 w2 = (x, m3, w3)" for x m3 w3
    using lbox_merger_next_refs [OF ok2 that] by (simp add: refs_ok_def)
  have d2: "(tuple_refs w3 = tuple_refs w2 \<and> (x = Inr None \<or> x = Inl Undefined_behaviour)) \<or>
             (\<exists>c < count m2. \<exists>t. tuple (sources m2 ! c) = Some t \<and> t \<in># tuple_refs w2 \<and>
                x = Inr (Some t) \<and>
                tuple_refs w3 = tuple_refs w2 - {#t#} + head_refs (sources m3 ! c)) \<or>
             (\<exists>c < count m2. \<exists>t e. tuple (sources m2 ! c) = Some t \<and> t \<in># tuple_refs w2 \<and>
                x = Inl e \<and> tuple (sources m3 ! c) = None \<and>
                tuple_refs w3 = tuple_refs w2 - {#t#})"
    if "lbox_merger_next cmp tnew m2 w2 = (x, m3, w3)" for x m3 w3
    using lbox_merger_next_refs [OF ok2 that, THEN conjunct2, THEN conjunct2] .
  show ?thesis
    by (intro conjI allI impI a b c d1 d2)
qed

theorem merger_holds_one_reference_per_head_witness:
  "refs_ok example_merger example_world \<and>
   sources_block example_merger \<noteq> Block_freed \<and>
   (\<exists>m1 w1 out r m2 w2 m3 w3.
      lbox_merger_start example_box_tuple_new example_merger example_world
        [Lua_ibuf 2, Lua_ibuf 3] 1 = Some (None, m1, w1) \<and>
      merge_run example_box_tuple_compare example_box_tuple_new 2 m1 w1 = (out, r, m2, w2) \<and>
      tuple_refs w2 = {#example_tuple 3, example_tuple 4#} \<and>
      tuple_refs w2 = heads (sources m2) \<and>
      size (tuple_refs w2) = length (filter (\<lambda>s. tuple s \<noteq> None) (sources m2)) \<and>
      lbox_merger_next example_box_tuple_compare example_box_tuple_new m2 w2
        = (Inr (Some (example_tuple 3)), m3, w3) \<and>
      (\<exists>c < count m2. tuple (sources m2 ! c) = Some (example_tuple 3) \<and>
         example_tuple 3 \<in># tuple_refs w2 \<and>
         tuple_refs w3 = tuple_refs w2 - {#example_tuple 3#} + head_refs (sources m3 ! c)) \<and>
      tuple_refs w3 = heads (sources m3))"
proof -
  have ok: "refs_ok example_merger example_world"
    by (simp add: refs_ok_def example_merger_def example_world_def)
  have nf: "sources_block example_merger \<noteq> Block_freed"
    by (simp add: example_merger_def)
  have "\<exists>m1 w1. lbox_merger_start example_box_tuple_new example_merger example_world
        [Lua_ibuf 2, Lua_ibuf 3] 1 = Some (None, m1, w1) \<and>
      (\<exists>out r m2 w2. merge_run example_box_tuple_compare example_box_tuple_new 2 m1 w1
           = (out, r, m2, w2) \<and>
         tuple_refs w2 = {#example_tuple 3, example_tuple 4#} \<and>
         (\<exists>m3 w3. lbox_merger_next example_box_tuple_compare example_box_tuple_new m2 w2
            = (Inr (Some (example_tuple 3)), m3, w3)))"
    by (simp add: model_defs example_defs start_loop.simps numeral_2_eq_2)
  then obtain m1 w1 out r m2 w2 m3 w3 where
    st: "lbox_merger_start example_box_tuple_new example_merger example_world
        [Lua_ibuf 2, Lua_ibuf 3] 1 = Some (None, m1, w1)"
    and run: "merge_run example_box_tuple_compare example_box_tuple_new 2 m1 w1
           = (out, r, m2, w2)"
    and refs: "tuple_refs w2 = {#example_tuple 3, example_tuple 4#}"
    and nx: "lbox_merger_next example_box_tuple_compare example_box_tuple_new m2 w2
            = (Inr (Some (example_tuple 3)), m3, w3)"
    by blast
  note t = merger_holds_one_reference_per_head [OF ok nf st run]
  note t1 = t [THEN conjunct1]
  note t2 = t [THEN conjunct2, THEN conjunct1]
  note t3 = t [THEN conjunct2, THEN conjunct2, THEN conjunct1, THEN spec, THEN spec, THEN spec,
      THEN mp, OF nx]
  note t4 = t [THEN conjunct2, THEN conjunct2, THEN conjunct2, THEN spec, THEN spec, THEN spec,
      THEN mp, OF nx, THEN conjunct1]
  show ?thesis
    by (intro conjI ok nf, rule exI [of _ m1], rule exI [of _ w1], rule exI [of _ out],
        rule exI [of _ r], rule exI [of _ m2], rule exI [of _ w2], rule exI [of _ m3],
        rule exI [of _ w3], intro conjI st run refs t1 t2 nx t3 t4)
qed

text \<open>
  The claim C7 as stated fails in its last part: a reference is given up without the
  tuple being returned. After \<open>start\<close> on the function that yields \<open>[1]\<close> and raises at its
  second call and the buffer \<open>[[2],[4],[6]]\<close>, the merger holds the references to \<open>[1]\<close> and
  \<open>[2]\<close>; \<open>next\<close> gives up the reference to \<open>[1]\<close>, and raises the error of the function:
  \<open>[1]\<close> is not returned.
\<close>

theorem next_gives_up_reference_without_tuple:
  "example_start [Lua_function 1, Lua_ibuf 3] 1 \<noteq> None \<and>
   outcome_error (example_start [Lua_function 1, Lua_ibuf 3] 1) = None \<and>
   tuple_refs (outcome_world (example_start [Lua_function 1, Lua_ibuf 3] 1))
     = {#example_tuple 1, example_tuple 2#} \<and>
   fst (example_next (example_start [Lua_function 1, Lua_ibuf 3] 1)) = Inl Producer_fault \<and>
   tuple_refs (snd (snd (example_next (example_start [Lua_function 1, Lua_ibuf 3] 1))))
     = {#example_tuple 2#}"
  by (simp add: model_defs example_defs start_loop.simps)

subsection \<open>What a fetch does to the streams\<close>

lemma source_fetch_value:
  assumes "source_fetch tnew fmt s w = (e, s', w')"
  shows "source_value s' = source_value s"
  using source_fetch_fields [OF assms] by (simp add: source_value_def)

lemma source_value_not_stop [simp]: "\<not> stops_enumeration (source_value s)"
  by (simp add: source_value_def stops_enumeration_def)

lemma source_fetch_frame:
  assumes "source_fetch tnew fmt s w = (e, s', w')" and "v \<noteq> source_value s"
  shows "producer_state w' v = producer_state w v"
  using assms
  by (cases v)
    (auto simp: source_fetch_def Let_def box_tuple_ref_def producer_state_def source_value_def
      split: if_splits list.splits call_result.splits option.splits prod.splits)

lemma box_tuple_unref_frame [simp]:
  "producer_state (box_tuple_unref t w) v = producer_state w v"
  by (cases v) (simp_all add: producer_state_def box_tuple_unref_def)

lemma pending_cong:
  "producer_state w' (source_value s) = producer_state w (source_value s) \<Longrightarrow>
     pending tnew fmt w' s = pending tnew fmt w s"
  by (simp add: pending_def)

lemma stream_cong:
  "producer_state w' (source_value s) = producer_state w (source_value s) \<Longrightarrow>
     stream tnew fmt w' s = stream tnew fmt w s"
  using pending_cong [of w' s w tnew fmt] by (simp add: stream_def split: option.splits)

lemma supplied_cong:
  "producer_state w' v = producer_state w v \<Longrightarrow> supplied tnew fmt w' v = supplied tnew fmt w v"
  by (simp add: supplied_def)

lemma stream_Nil_iff [simp]: "stream tnew fmt w s = [] \<longleftrightarrow> tuple s = None"
  by (simp add: stream_def split: option.splits)

lemma pending_tuple_irrelevant [simp]:
  "pending tnew fmt w (s\<lparr>tuple := x\<rparr>) = pending tnew fmt w s"
  by (simp add: pending_def source_value_def)

text \<open>A fetch that succeeds installs the first pending tuple and leaves the others pending.\<close>

lemma source_fetch_stream:
  assumes "source_fetch tnew fmt s w = (None, s', w')"
  shows "stream tnew fmt w' s' = pending tnew fmt w s"
proof (cases "source_type s")
  case SOURCE_TYPE_FUNCTION
  show ?thesis
  proof (cases "callables w (input s)")
    case Nil
    with assms SOURCE_TYPE_FUNCTION show ?thesis
      by (auto simp: source_fetch_def stream_def pending_def producer_state_def source_value_def)
  next
    case (Cons r rs)
    with assms SOURCE_TYPE_FUNCTION show ?thesis
      by (cases r)
        (auto simp: source_fetch_def stream_def pending_def producer_state_def source_value_def
          box_tuple_ref_def Let_def)
  qed
next
  case SOURCE_TYPE_BUFFER
  show ?thesis
  proof (cases "ibufs w (input s)")
    case Nil
    with assms SOURCE_TYPE_BUFFER show ?thesis
      by (auto simp: source_fetch_def stream_def pending_def producer_state_def source_value_def
          ibuf_used_def)
  next
    case (Cons t ts)
    with assms SOURCE_TYPE_BUFFER show ?thesis
      by (auto simp: source_fetch_def stream_def pending_def producer_state_def source_value_def
          ibuf_used_def box_tuple_ref_def Let_def split: option.splits prod.splits)
  qed
qed

subsection \<open>One accepted source\<close>

lemma producer_state_ibufs_upd:
  "v \<noteq> Lua_ibuf a \<Longrightarrow>
     producer_state (w\<lparr>ibufs := (ibufs w)(a := b)\<rparr>) v = producer_state w v"
  by (cases v) (simp_all add: producer_state_def)

lemma start_iteration_Advance_not_stop:
  "start_iteration tnew v m w = Advance m' w' \<Longrightarrow> \<not> stops_enumeration v"
  using start_iteration_stops [of v tnew m w] by auto

lemma start_iteration_Advance_source:
  fixes m :: "('t, 'kd, 'fmt) merger"
  assumes it: "start_iteration tnew v m w = Advance m' w'"
    and len: "length (sources m) = count m"
  shows "\<exists>s'. sources m' = sources m @ [s'] \<and> count m' = count m + 1 \<and>
           heap m' = (if tuple s' \<noteq> None then heap m @ [count m] else heap m) \<and>
           source_value s' = v \<and> format m' = format m \<and>
           stream tnew (format m) w' s' = supplied tnew (format m) w v \<and>
           (\<forall>v'. v' \<noteq> v \<longrightarrow> producer_state w' v' = producer_state w v')"
proof (cases v)
  case (Lua_function f)
  let ?s = "\<lparr>source_type = SOURCE_TYPE_FUNCTION, input = f, tuple = None\<rparr> :: 't source"
  from it Lua_function obtain s' where
    f: "source_fetch tnew (format m) ?s w = (None, s', w')"
    and m': "sources m' = take (count m) (sources m) @ [s']" "count m' = count m + 1"
      "heap m' = (if tuple s' \<noteq> None then merger_heap_insert (heap m) (count m) else heap m)"
      "format m' = format m"
    by (auto simp: start_iteration_def start_source_def Let_def
        split: if_splits prod.splits option.splits)
  have v: "source_value ?s = v"
    using Lua_function by (simp add: source_value_def)
  have "stream tnew (format m) w' s' = pending tnew (format m) w ?s"
    using f by (rule source_fetch_stream)
  also have "\<dots> = supplied tnew (format m) w v"
    using Lua_function by (simp add: pending_def supplied_def v producer_state_def)
  finally have st: "stream tnew (format m) w' s' = supplied tnew (format m) w v" .
  have fr: "producer_state w' v' = producer_state w v'" if "v' \<noteq> v" for v'
    using source_fetch_frame [OF f, of v'] that v by simp
  show ?thesis
    using m' len source_fetch_value [OF f] v st fr
    by (intro exI [of _ s']) (simp add: merger_heap_insert_def)
next
  case (Lua_ibuf a)
  let ?s = "\<lparr>source_type = SOURCE_TYPE_BUFFER, input = a, tuple = None\<rparr> :: 't source"
  from it Lua_ibuf obtain s' rest where
    d: "decode_wrapper (ibufs w a) = (Wrapper_ok, rest)"
    and f: "source_fetch tnew (format m) ?s (w\<lparr>ibufs := (ibufs w)(a := rest)\<rparr>) = (None, s', w')"
    and m': "sources m' = take (count m) (sources m) @ [s']" "count m' = count m + 1"
      "heap m' = (if tuple s' \<noteq> None then merger_heap_insert (heap m) (count m) else heap m)"
      "format m' = format m"
    by (auto simp: start_iteration_def start_source_def Let_def
        split: if_splits prod.splits option.splits wrapper.splits)
  have v: "source_value ?s = v"
    using Lua_ibuf by (simp add: source_value_def)
  have "stream tnew (format m) w' s' =
      pending tnew (format m) (w\<lparr>ibufs := (ibufs w)(a := rest)\<rparr>) ?s"
    using f by (rule source_fetch_stream)
  also have "\<dots> = supplied tnew (format m) w v"
    using Lua_ibuf d by (simp add: pending_def supplied_def v producer_state_def)
  finally have st: "stream tnew (format m) w' s' = supplied tnew (format m) w v" .
  have fr: "producer_state w' v' = producer_state w v'" if "v' \<noteq> v" for v'
    using source_fetch_frame [OF f, of v'] that v Lua_ibuf
    by (simp add: producer_state_ibufs_upd)
  show ?thesis
    using m' len source_fetch_value [OF f] v st fr
    by (intro exI [of _ s']) (simp add: merger_heap_insert_def)
qed (use it in \<open>simp_all add: start_iteration_def\<close>)

end
